theory Spec2Isabelle
  imports Main "HOL-Library.Sublist"
begin

section \<open>Data model\<close>

text \<open>
  The script works on JSON documents decoded into Python dictionaries. A key that a
  dictionary may lack is an \<open>option\<close> field: \<open>None\<close> is the absent key, so that
  \<open>obj.get(k, d)\<close> is a case distinction with the default \<open>d\<close> and \<open>obj[k]\<close> on an absent
  key is the \<open>KeyError\<close> of Python. A key that is present has a value of the type the
  script expects there, a string or a list of objects: a document with \<open>null\<close>, a number
  or another structure under one of these keys, on which the script raises \<open>TypeError\<close>
  or \<open>AttributeError\<close>, is outside these types. A Python \<open>str\<close> is a \<open>string\<close>, one
  \<open>char\<close> per character; a dictionary whose iteration order matters is the list of its
  items in insertion order.
\<close>

datatype py_error =
    IndexError
  | KeyError string
  | RequestException string
  | OtherException string
  | OSError string

text \<open>An entry of \<open>external_references\<close> and an entry of \<open>kill_chain_phases\<close>.\<close>

record external_reference =
  source_name :: "string option"
  external_id :: "string option"

record kill_chain_phase =
  kill_chain_name :: "string option"
  phase_name :: "string option"

text \<open>A STIX object as found in the \<open>objects\<close> array of a downloaded bundle.\<close>

record stix_object =
  o_type :: "string option"
  o_id :: "string option"
  o_name :: "string option"
  o_description :: "string option"
  o_created :: "string option"
  o_modified :: "string option"
  o_external_references :: "external_reference list option"
  o_kill_chain_phases :: "kill_chain_phase list option"

text \<open>
  A downloaded document: the \<open>objects\<close> key when present, and the names of the other
  top-level keys, whose values the script never reads. The empty dictionary \<open>{}\<close> has
  neither.
\<close>

record document =
  objects :: "stix_object list option"
  other_keys :: "string list"

definition empty_document :: document where
  "empty_document = \<lparr>objects = None, other_keys = []\<rparr>"

text \<open>Python's \<open>bool(d)\<close> of a dictionary: it has at least one key.\<close>

definition truthy :: "document \<Rightarrow> bool" where
  "truthy d = (objects d \<noteq> None \<or> other_keys d \<noteq> [])"

text \<open>The dictionaries built by \<open>parse_attack_techniques\<close>, \<open>parse_attack_mitigations\<close>
  and \<open>parse_capec_patterns\<close>; the prefix of a field name stands for the dictionary.\<close>

record technique =
  t_id :: string
  t_name :: string
  t_description :: string
  t_domain :: string
  t_tactics :: "string list"
  t_stix_id :: string
  t_created :: string
  t_modified :: string
  t_external_references :: "external_reference list"

record mitigation =
  m_id :: string
  m_name :: string
  m_description :: string
  m_domain :: string
  m_stix_id :: string
  m_created :: string
  m_modified :: string
  m_external_references :: "external_reference list"

record pattern =
  p_id :: string
  p_name :: string
  p_description :: string
  p_stix_id :: string
  p_created :: string
  p_modified :: string
  p_external_references :: "external_reference list"

text \<open>An entry of \<open>self.stride_capec_mappings\<close>, and the table itself as its items.\<close>

record mapping_info =
  description :: string
  capec_ids :: "string list"

type_synonym stride_table = "(string \<times> mapping_info) list"

text \<open>The dictionaries appended to \<open>capec_patterns\<close> and to \<open>attack_techniques\<close>, and the
  value stored under a category in the result of the correlation.\<close>

record pattern_summary =
  ps_id :: string
  ps_name :: string
  ps_description :: string

record technique_summary =
  ts_id :: string
  ts_name :: string
  ts_domain :: string
  ts_tactics :: "string list"

record category_mapping =
  cm_description :: string
  capec_patterns :: "pattern_summary list"
  capec_count :: nat
  attack_techniques :: "technique_summary list"
  mapping_source :: string

section \<open>The curated table and the keyword table\<close>

definition stride_capec_mappings :: stride_table where
  "stride_capec_mappings =
  [
   (''Spoofing'',
     \<lparr>description = ''Identity falsification attacks'',
      capec_ids = [
       ''CAPEC-148'', ''CAPEC-145'', ''CAPEC-218'', ''CAPEC-502'', ''CAPEC-627'',
       ''CAPEC-628'', ''CAPEC-151'', ''CAPEC-194'', ''CAPEC-275'', ''CAPEC-543'',
       ''CAPEC-544'', ''CAPEC-598'', ''CAPEC-633'', ''CAPEC-195'', ''CAPEC-587'',
       ''CAPEC-599'', ''CAPEC-473'', ''CAPEC-459'', ''CAPEC-474'', ''CAPEC-475'',
       ''CAPEC-476'', ''CAPEC-477'', ''CAPEC-479'', ''CAPEC-485'', ''CAPEC-89'', ''CAPEC-98'',
       ''CAPEC-163'', ''CAPEC-164'', ''CAPEC-656'', ''CAPEC-154'', ''CAPEC-159'',
       ''CAPEC-132'', ''CAPEC-38'', ''CAPEC-471'', ''CAPEC-641'', ''CAPEC-141'', ''CAPEC-51'',
       ''CAPEC-142'', ''CAPEC-616'', ''CAPEC-505'', ''CAPEC-611'', ''CAPEC-615'',
       ''CAPEC-617'', ''CAPEC-630'', ''CAPEC-631'', ''CAPEC-632'', ''CAPEC-667'',
       ''CAPEC-173'', ''CAPEC-103'', ''CAPEC-181'', ''CAPEC-222'', ''CAPEC-501'',
       ''CAPEC-504'', ''CAPEC-654'', ''CAPEC-506'', ''CAPEC-416'', ''CAPEC-407'',
       ''CAPEC-383'', ''CAPEC-412'', ''CAPEC-413'', ''CAPEC-414'', ''CAPEC-415'',
       ''CAPEC-417'', ''CAPEC-418'', ''CAPEC-420'', ''CAPEC-421'', ''CAPEC-422'',
       ''CAPEC-423'', ''CAPEC-424'', ''CAPEC-425'', ''CAPEC-426'', ''CAPEC-427'',
       ''CAPEC-428'', ''CAPEC-429'', ''CAPEC-433'', ''CAPEC-434'', ''CAPEC-435'', ''CAPEC-389'']\<rparr>),
   (''Tampering'',
     \<lparr>description = ''Data or system integrity violations'',
      capec_ids = [
       ''CAPEC-271'', ''CAPEC-267'', ''CAPEC-39'', ''CAPEC-75'', ''CAPEC-123'', ''CAPEC-153'',
       ''CAPEC-272'', ''CAPEC-273'', ''CAPEC-74'', ''CAPEC-221'', ''CAPEC-459'', ''CAPEC-132'',
       ''CAPEC-29'', ''CAPEC-653'', ''CAPEC-635'', ''CAPEC-649'', ''CAPEC-471'', ''CAPEC-204'',
       ''CAPEC-17'', ''CAPEC-649'', ''CAPEC-242'', ''CAPEC-23'', ''CAPEC-250'', ''CAPEC-77'',
       ''CAPEC-245'', ''CAPEC-83'', ''CAPEC-85'', ''CAPEC-89'', ''CAPEC-86'', ''CAPEC-113'',
       ''CAPEC-152'', ''CAPEC-263'', ''CAPEC-81'', ''CAPEC-78'', ''CAPEC-146'', ''CAPEC-248'',
       ''CAPEC-13'', ''CAPEC-522'', ''CAPEC-439'', ''CAPEC-440'', ''CAPEC-441'', ''CAPEC-636'',
       ''CAPEC-637'', ''CAPEC-638'', ''CAPEC-562'']\<rparr>),
   (''Repudiation'',
     \<lparr>description = ''Denial of actions or hiding evidence'',
      capec_ids = [
       ''CAPEC-268'', ''CAPEC-93'', ''CAPEC-93'', ''CAPEC-268'', ''CAPEC-578'', ''CAPEC-205'',
       ''CAPEC-550'', ''CAPEC-97'', ''CAPEC-649'', ''CAPEC-26'']\<rparr>),
   (''Information Disclosure'',
     \<lparr>description = ''Unauthorized information access or leakage'',
      capec_ids = [
       ''CAPEC-117'', ''CAPEC-157'', ''CAPEC-158'', ''CAPEC-609'', ''CAPEC-610'',
       ''CAPEC-612'', ''CAPEC-613'', ''CAPEC-614'', ''CAPEC-651'', ''CAPEC-651'',
       ''CAPEC-124'', ''CAPEC-134'', ''CAPEC-233'', ''CAPEC-116'', ''CAPEC-37'', ''CAPEC-203'',
       ''CAPEC-189'', ''CAPEC-188'', ''CAPEC-651'', ''CAPEC-189'', ''CAPEC-208'',
       ''CAPEC-224'', ''CAPEC-95'', ''CAPEC-116'', ''CAPEC-37'', ''CAPEC-118'', ''CAPEC-224'',
       ''CAPEC-116'', ''CAPEC-95'', ''CAPEC-509'', ''CAPEC-560'', ''CAPEC-560'', ''CAPEC-509'']\<rparr>),
   (''Denial of Service'',
     \<lparr>description = ''Service availability attacks'',
      capec_ids = [
       ''CAPEC-119'', ''CAPEC-125'', ''CAPEC-130'', ''CAPEC-131'', ''CAPEC-147'',
       ''CAPEC-229'', ''CAPEC-230'', ''CAPEC-231'', ''CAPEC-482'', ''CAPEC-486'',
       ''CAPEC-487'', ''CAPEC-488'', ''CAPEC-489'', ''CAPEC-490'', ''CAPEC-491'',
       ''CAPEC-492'', ''CAPEC-493'', ''CAPEC-494'', ''CAPEC-495'', ''CAPEC-496'',
       ''CAPEC-497'', ''CAPEC-498'', ''CAPEC-499'', ''CAPEC-21'', ''CAPEC-482'', ''CAPEC-486'',
       ''CAPEC-487'', ''CAPEC-488'', ''CAPEC-489'', ''CAPEC-490'', ''CAPEC-491'',
       ''CAPEC-492'', ''CAPEC-493'', ''CAPEC-494'', ''CAPEC-495'', ''CAPEC-496'',
       ''CAPEC-497'', ''CAPEC-498'', ''CAPEC-499'', ''CAPEC-147'', ''CAPEC-229'',
       ''CAPEC-230'', ''CAPEC-231'', ''CAPEC-599'', ''CAPEC-600'', ''CAPEC-601'',
       ''CAPEC-602'', ''CAPEC-603'', ''CAPEC-604'', ''CAPEC-605'', ''CAPEC-606'',
       ''CAPEC-607'', ''CAPEC-608'']\<rparr>),
   (''Elevation of Privilege'',
     \<lparr>description = ''Unauthorized access escalation'',
      capec_ids = [
       ''CAPEC-122'', ''CAPEC-58'', ''CAPEC-180'', ''CAPEC-21'', ''CAPEC-122'', ''CAPEC-207'',
       ''CAPEC-122'', ''CAPEC-207'', ''CAPEC-36'', ''CAPEC-36'', ''CAPEC-560'', ''CAPEC-16'',
       ''CAPEC-554'', ''CAPEC-593'', ''CAPEC-233'', ''CAPEC-69'', ''CAPEC-40'', ''CAPEC-104'',
       ''CAPEC-233'', ''CAPEC-69'', ''CAPEC-40'', ''CAPEC-104'', ''CAPEC-21'', ''CAPEC-21'',
       ''CAPEC-102'', ''CAPEC-102'']\<rparr>)]"

definition stride_keywords :: "(string \<times> string list) list" where
  "stride_keywords =
  [(''Spoofing'',
      [''spoof'', ''fake'', ''impersonat'', ''masquerad'', ''phish'', ''identity'', ''forge'']),
   (''Tampering'',
      [''tamper'', ''modify'', ''alter'', ''corrupt'', ''manipulat'', ''inject'', ''poison'']),
   (''Repudiation'',
      [''log'', ''audit'', ''trace'', ''evidence'', ''timestamp'', ''non-repudiation'', ''cover'']),
   (''Information Disclosure'',
      [''disclosure'', ''leak'', ''exfiltrat'', ''credential'', ''sensitive'', ''data'',
       ''harvest'']),
   (''Denial of Service'',
      [''denial'', ''flood'', ''exhaust'', ''resource'', ''availability'', ''crash'',
       ''overwhelm'']),
   (''Elevation of Privilege'',
      [''privilege'', ''escalat'', ''admin'', ''root'', ''elevat'', ''bypass'',
       ''unauthorized''])]"

text \<open>\<open>stride_keywords.get(category, [])\<close>.\<close>

definition keywords_of :: "string \<Rightarrow> string list" where
  "keywords_of category =
     (case map_of stride_keywords category of None \<Rightarrow> [] | Some ks \<Rightarrow> ks)"

section \<open>Strings\<close>

text \<open>
  \<open>str.lower()\<close> on the letters \<open>A\<close> to \<open>Z\<close>; every other character is left as it is.
  The keyword test \<open>keyword in desc_lower\<close> is the contiguous-sublist relation
  \<^const>\<open>sublist\<close>.
\<close>

definition lower_char :: "char \<Rightarrow> char" where
  "lower_char c =
     (case map_of (zip ''ABCDEFGHIJKLMNOPQRSTUVWXYZ'' ''abcdefghijklmnopqrstuvwxyz'') c of
        None \<Rightarrow> c
      | Some l \<Rightarrow> l)"

definition lower :: "string \<Rightarrow> string" where
  "lower s = map lower_char s"

section \<open>The correlation: \<open>create_stride_mapping_with_real_data\<close>\<close>

text \<open>The index \<open>capec_by_id\<close>: a dictionary comprehension over the patterns whose
  identifier is not empty; a later pattern with the same identifier replaces the earlier.\<close>

definition capec_by_id_of :: "pattern list \<Rightarrow> (string \<rightharpoonup> pattern)" where
  "capec_by_id_of patterns =
     fold (\<lambda>pattern m. if p_id pattern \<noteq> [] then m(p_id pattern \<mapsto> pattern) else m)
       patterns Map.empty"

text \<open>The summary of a pattern, its description cut after 200 characters.\<close>

definition summary_of_pattern :: "pattern \<Rightarrow> pattern_summary" where
  "summary_of_pattern pattern =
     \<lparr>ps_id = p_id pattern,
      ps_name = p_name pattern,
      ps_description =
        (if length (p_description pattern) > 200
         then take 200 (p_description pattern) @ ''...''
         else p_description pattern)\<rparr>"

text \<open>
  The loop over \<open>mapping_info['capec_ids']\<close>. Its state is the list \<open>capec_patterns\<close>
  and the set \<open>found_capec_ids\<close>; the set is written in every matching iteration and
  read in none.
\<close>

fun map_capec_patterns ::
  "(string \<rightharpoonup> pattern) \<Rightarrow> string list \<Rightarrow> pattern_summary list \<times> string set
     \<Rightarrow> pattern_summary list \<times> string set" where
  "map_capec_patterns capec_by_id [] st = st"
| "map_capec_patterns capec_by_id (capec_id # rest) (patterns_acc, found_capec_ids) =
     (case capec_by_id capec_id of
        None \<Rightarrow> map_capec_patterns capec_by_id rest (patterns_acc, found_capec_ids)
      | Some pattern \<Rightarrow>
          map_capec_patterns capec_by_id rest
            (patterns_acc @ [summary_of_pattern pattern], insert capec_id found_capec_ids))"

text \<open>The keyword test of one technique, and the loop over the techniques.\<close>

definition desc_lower :: "technique \<Rightarrow> string" where
  "desc_lower tech = lower (t_description tech @ '' '' @ t_name tech)"

definition matches_keywords :: "string list \<Rightarrow> technique \<Rightarrow> bool" where
  "matches_keywords keywords tech = list_ex (\<lambda>keyword. sublist keyword (desc_lower tech)) keywords"

definition summary_of_technique :: "technique \<Rightarrow> technique_summary" where
  "summary_of_technique tech =
     \<lparr>ts_id = t_id tech, ts_name = t_name tech, ts_domain = t_domain tech,
      ts_tactics = t_tactics tech\<rparr>"

fun map_attack_techniques ::
  "string list \<Rightarrow> technique list \<Rightarrow> technique_summary list \<Rightarrow> technique_summary list" where
  "map_attack_techniques keywords [] acc = acc"
| "map_attack_techniques keywords (tech # rest) acc =
     (if matches_keywords keywords tech
      then map_attack_techniques keywords rest (acc @ [summary_of_technique tech])
      else map_attack_techniques keywords rest acc)"

text \<open>One iteration of the loop over the categories: the value stored under
  \<open>stride_mapping[category]\<close>.\<close>

definition category_entry ::
  "(string \<rightharpoonup> pattern) \<Rightarrow> technique list \<Rightarrow> string \<Rightarrow> mapping_info \<Rightarrow> category_mapping" where
  "category_entry capec_by_id techniques category info =
     (let found = fst (map_capec_patterns capec_by_id (capec_ids info) ([], {}))
      in \<lparr>cm_description = description info,
          capec_patterns = found,
          capec_count = length found,
          attack_techniques = map_attack_techniques (keywords_of category) techniques [],
          mapping_source = ''Official community mapping (ostering.com)''\<rparr>)"

text \<open>
  The whole function, with the table \<open>self.stride_capec_mappings\<close> as its first argument.
  The keys of a dictionary are distinct, so every assignment \<open>stride_mapping[category] = ...\<close>
  adds a new key at the end of the result.
\<close>

definition create_stride_mapping_with_real_data ::
  "stride_table \<Rightarrow> technique list \<Rightarrow> pattern list \<Rightarrow> (string \<times> category_mapping) list" where
  "create_stride_mapping_with_real_data table techniques patterns =
     (let capec_by_id = capec_by_id_of patterns
      in map (\<lambda>(category, info). (category, category_entry capec_by_id techniques category info))
           table)"

section \<open>The fetcher: \<open>download_with_retry\<close>\<close>

text \<open>
  What one attempt does is decided outside the script: the three calls
  \<open>requests.get\<close>, \<open>raise_for_status\<close> and \<open>response.json\<close> either give the parsed document,
  or raise a \<open>RequestException\<close> (connection error, timeout, status that is not a
  success), which the loop catches, or raise something else, which it does not catch.
  The function takes the outcome of every attempt, by its zero-based index.
\<close>

datatype outcome =
    Parsed document
  | Request_failed string
  | Other_failure string

text \<open>What the function does besides returning: the lines it logs, the request, and the
  seconds it sleeps.\<close>

datatype event =
    Log_downloading string nat
  | Http_get string
  | Log_attempt_failed nat string
  | Sleep nat
  | Log_permanent_failure string

text \<open>
  The body of \<open>for attempt in range(max_retries)\<close>, by recursion on the rest of the range.
  A loop that ends without \<open>return\<close> or \<open>raise\<close> leaves the function with \<open>None\<close>.
\<close>

fun attempts ::
  "(nat \<Rightarrow> outcome) \<Rightarrow> string \<Rightarrow> int \<Rightarrow> nat list
     \<Rightarrow> event list \<times> (py_error + document option)" where
  "attempts resp url max_retries [] = ([], Inr None)"
| "attempts resp url max_retries (attempt # rest) =
     (case resp attempt of
        Parsed doc \<Rightarrow>
          ([Log_downloading url (attempt + 1), Http_get url], Inr (Some doc))
      | Other_failure e \<Rightarrow>
          ([Log_downloading url (attempt + 1), Http_get url], Inl (OtherException e))
      | Request_failed e \<Rightarrow>
          (if int attempt < max_retries - 1
           then (case attempts resp url max_retries rest of
                   (events, result) \<Rightarrow>
                     ([Log_downloading url (attempt + 1), Http_get url,
                       Log_attempt_failed (attempt + 1) e, Sleep (2 ^ attempt)] @ events,
                      result))
           else ([Log_downloading url (attempt + 1), Http_get url,
                  Log_attempt_failed (attempt + 1) e, Log_permanent_failure url],
                 Inl (RequestException e))))"

definition download_with_retry ::
  "(nat \<Rightarrow> outcome) \<Rightarrow> string \<Rightarrow> int \<Rightarrow> event list \<times> (py_error + document option)" where
  "download_with_retry resp url max_retries =
     attempts resp url max_retries [0..<nat max_retries]"

section \<open>The normalizer\<close>

text \<open>\<open>obj.get(key, '')\<close> and \<open>obj.get(key, [])\<close>.\<close>

definition get_str :: "string option \<Rightarrow> string" where
  "get_str v = (case v of None \<Rightarrow> '''' | Some s \<Rightarrow> s)"

definition get_list :: "'a list option \<Rightarrow> 'a list" where
  "get_list v = (case v of None \<Rightarrow> [] | Some xs \<Rightarrow> xs)"

text \<open>
  \<open>obj.get('external_references', [{}])[0].get('external_id', '')\<close>: the default \<open>[{}]\<close>
  stands in for an absent key only; a list that is present and empty has no element 0.
\<close>

definition first_external_id :: "stix_object \<Rightarrow> py_error + string" where
  "first_external_id obj =
     (case o_external_references obj of
        None \<Rightarrow> Inr ''''
      | Some [] \<Rightarrow> Inl IndexError
      | Some (ref # _) \<Rightarrow> Inr (get_str (external_id ref)))"

text \<open>\<open>[phase['phase_name'] for phase in phases]\<close>.\<close>

fun phase_names :: "kill_chain_phase list \<Rightarrow> py_error + string list" where
  "phase_names [] = Inr []"
| "phase_names (phase # rest) =
     (case phase_name phase of
        None \<Rightarrow> Inl (KeyError ''phase_name'')
      | Some n \<Rightarrow>
          (case phase_names rest of Inl e \<Rightarrow> Inl e | Inr ns \<Rightarrow> Inr (n # ns)))"

text \<open>The dictionary \<open>technique\<close> built for one object; its values are evaluated in the
  order of the keys, \<open>id\<close> before \<open>tactics\<close>.\<close>

definition technique_of_object :: "string \<Rightarrow> stix_object \<Rightarrow> py_error + technique" where
  "technique_of_object domain obj =
     (case first_external_id obj of
        Inl e \<Rightarrow> Inl e
      | Inr i \<Rightarrow>
          (case phase_names (get_list (o_kill_chain_phases obj)) of
             Inl e \<Rightarrow> Inl e
           | Inr tactics \<Rightarrow>
               Inr \<lparr>t_id = i,
                    t_name = get_str (o_name obj),
                    t_description = get_str (o_description obj),
                    t_domain = domain,
                    t_tactics = tactics,
                    t_stix_id = get_str (o_id obj),
                    t_created = get_str (o_created obj),
                    t_modified = get_str (o_modified obj),
                    t_external_references = get_list (o_external_references obj)\<rparr>))"

text \<open>The loop over \<open>data['objects']\<close> and the loop over \<open>attack_data.items()\<close>; the list
  \<open>techniques\<close> is the state of both. Nothing in either loop catches an exception.\<close>

fun technique_objects ::
  "string \<Rightarrow> stix_object list \<Rightarrow> technique list \<Rightarrow> py_error + technique list" where
  "technique_objects domain [] techniques = Inr techniques"
| "technique_objects domain (obj # rest) techniques =
     (if o_type obj = Some ''attack-pattern''
      then (case technique_of_object domain obj of
              Inl e \<Rightarrow> Inl e
            | Inr technique \<Rightarrow> technique_objects domain rest (techniques @ [technique]))
      else technique_objects domain rest techniques)"

fun technique_domains ::
  "(string \<times> document) list \<Rightarrow> technique list \<Rightarrow> py_error + technique list" where
  "technique_domains [] techniques = Inr techniques"
| "technique_domains ((domain, data) # rest) techniques =
     (case objects data of
        None \<Rightarrow> technique_domains rest techniques
      | Some objs \<Rightarrow>
          (case technique_objects domain objs techniques of
             Inl e \<Rightarrow> Inl e
           | Inr techniques' \<Rightarrow> technique_domains rest techniques'))"

definition parse_attack_techniques ::
  "(string \<times> document) list \<Rightarrow> py_error + technique list" where
  "parse_attack_techniques attack_data = technique_domains attack_data []"

text \<open>The same for the mitigations, from the objects of type \<open>course-of-action\<close>.\<close>

definition mitigation_of_object :: "string \<Rightarrow> stix_object \<Rightarrow> py_error + mitigation" where
  "mitigation_of_object domain obj =
     (case first_external_id obj of
        Inl e \<Rightarrow> Inl e
      | Inr i \<Rightarrow>
          Inr \<lparr>m_id = i,
               m_name = get_str (o_name obj),
               m_description = get_str (o_description obj),
               m_domain = domain,
               m_stix_id = get_str (o_id obj),
               m_created = get_str (o_created obj),
               m_modified = get_str (o_modified obj),
               m_external_references = get_list (o_external_references obj)\<rparr>)"

fun mitigation_objects ::
  "string \<Rightarrow> stix_object list \<Rightarrow> mitigation list \<Rightarrow> py_error + mitigation list" where
  "mitigation_objects domain [] mitigations = Inr mitigations"
| "mitigation_objects domain (obj # rest) mitigations =
     (if o_type obj = Some ''course-of-action''
      then (case mitigation_of_object domain obj of
              Inl e \<Rightarrow> Inl e
            | Inr mitigation \<Rightarrow> mitigation_objects domain rest (mitigations @ [mitigation]))
      else mitigation_objects domain rest mitigations)"

fun mitigation_domains ::
  "(string \<times> document) list \<Rightarrow> mitigation list \<Rightarrow> py_error + mitigation list" where
  "mitigation_domains [] mitigations = Inr mitigations"
| "mitigation_domains ((domain, data) # rest) mitigations =
     (case objects data of
        None \<Rightarrow> mitigation_domains rest mitigations
      | Some objs \<Rightarrow>
          (case mitigation_objects domain objs mitigations of
             Inl e \<Rightarrow> Inl e
           | Inr mitigations' \<Rightarrow> mitigation_domains rest mitigations'))"

definition parse_attack_mitigations ::
  "(string \<times> document) list \<Rightarrow> py_error + mitigation list" where
  "parse_attack_mitigations attack_data = mitigation_domains attack_data []"

text \<open>The patterns: the identifier is the \<open>external_id\<close> of the first reference whose
  \<open>source_name\<close> is \<open>capec\<close>, and the empty string when the loop finds none.\<close>

fun capec_id_of :: "external_reference list \<Rightarrow> string" where
  "capec_id_of [] = ''''"
| "capec_id_of (ref # rest) =
     (if source_name ref = Some ''capec'' then get_str (external_id ref)
      else capec_id_of rest)"

definition pattern_of_object :: "stix_object \<Rightarrow> pattern" where
  "pattern_of_object obj =
     \<lparr>p_id = capec_id_of (get_list (o_external_references obj)),
      p_name = get_str (o_name obj),
      p_description = get_str (o_description obj),
      p_stix_id = get_str (o_id obj),
      p_created = get_str (o_created obj),
      p_modified = get_str (o_modified obj),
      p_external_references = get_list (o_external_references obj)\<rparr>"

fun pattern_objects :: "stix_object list \<Rightarrow> pattern list \<Rightarrow> pattern list" where
  "pattern_objects [] patterns = patterns"
| "pattern_objects (obj # rest) patterns =
     (if o_type obj = Some ''attack-pattern''
      then pattern_objects rest (patterns @ [pattern_of_object obj])
      else pattern_objects rest patterns)"

definition parse_capec_patterns :: "document \<Rightarrow> pattern list" where
  "parse_capec_patterns capec_data =
     (case objects capec_data of None \<Rightarrow> [] | Some objs \<Rightarrow> pattern_objects objs [])"

section \<open>The run: \<open>generate_consolidated_mapping\<close>\<close>

text \<open>\<open>self.sources\<close>, in the order of the dictionary.\<close>

definition sources :: "(string \<times> string) list" where
  "sources =
     [(''attack_enterprise'',
       ''https://raw.githubusercontent.com/mitre-attack/attack-stix-data/master/enterprise-attack/enterprise-attack.json''),
      (''attack_mobile'',
       ''https://raw.githubusercontent.com/mitre-attack/attack-stix-data/master/mobile-attack/mobile-attack.json''),
      (''attack_ics'',
       ''https://raw.githubusercontent.com/mitre-attack/attack-stix-data/master/ics-attack/ics-attack.json''),
      (''capec_stix'',
       ''https://raw.githubusercontent.com/mitre/cti/master/capec/2.1/stix-capec.json''),
      (''d3fend_base'',
       ''https://d3fend.mitre.org/api/ontology/inference/d3fend-full-mappings.json'')]"

text \<open>
  What a run meets outside the script: the outcome of every attempt on every URL,
  whether a file can be opened and written, and the clock.
\<close>

record world =
  net :: "string \<Rightarrow> nat \<Rightarrow> outcome"
  writable :: "string \<Rightarrow> bool"
  now :: string

text \<open>
  \<open>fetch_attack_data\<close>: the sources whose name contains \<open>attack\<close>, in order. The document
  is stored in \<open>attack_data\<close> before it is saved, and \<open>except Exception\<close> covers the download
  and the save alike, so a failed save leaves the entry in place and a failed download
  leaves the domain out. The fetch functions call \<open>download_with_retry\<close> with its default
  of 3 attempts, for which it returns a document or raises (lemma
  \<open>download_with_retry_not_None\<close>); the branch for \<open>None\<close> is never taken.
\<close>

fun fetch_attack_sources ::
  "world \<Rightarrow> (string \<times> string) list \<Rightarrow> (string \<times> document) list
     \<Rightarrow> (string \<times> document) list" where
  "fetch_attack_sources w [] attack_data = attack_data"
| "fetch_attack_sources w ((domain, url) # rest) attack_data =
     (if sublist ''attack'' domain
      then (case snd (download_with_retry (net w url) url 3) of
              Inr (Some data) \<Rightarrow> fetch_attack_sources w rest (attack_data @ [(domain, data)])
            | Inr None \<Rightarrow> fetch_attack_sources w rest attack_data
            | Inl e \<Rightarrow> fetch_attack_sources w rest attack_data)
      else fetch_attack_sources w rest attack_data)"

definition fetch_attack_data :: "world \<Rightarrow> (string \<times> document) list" where
  "fetch_attack_data w = fetch_attack_sources w sources []"

text \<open>
  \<open>fetch_capec_data\<close> and \<open>fetch_d3fend_data\<close>: the download and the save are in one
  \<open>try\<close>, and every exception gives the empty dictionary.
\<close>

definition fetch_capec_data :: "string \<Rightarrow> world \<Rightarrow> document" where
  "fetch_capec_data output_dir w =
     (case map_of sources ''capec_stix'' of
        None \<Rightarrow> empty_document
      | Some url \<Rightarrow>
          (case snd (download_with_retry (net w url) url 3) of
             Inr (Some capec_data) \<Rightarrow>
               if writable w (output_dir @ ''/capec_raw.json'') then capec_data
               else empty_document
           | Inr None \<Rightarrow> empty_document
           | Inl e \<Rightarrow> empty_document))"

definition fetch_d3fend_data :: "string \<Rightarrow> world \<Rightarrow> document" where
  "fetch_d3fend_data output_dir w =
     (case map_of sources ''d3fend_base'' of
        None \<Rightarrow> empty_document
      | Some url \<Rightarrow>
          (case snd (download_with_retry (net w url) url 3) of
             Inr (Some d3fend_data) \<Rightarrow>
               if writable w (output_dir @ ''/d3fend_raw.json'') then d3fend_data
               else empty_document
           | Inr None \<Rightarrow> empty_document
           | Inl e \<Rightarrow> empty_document))"

text \<open>The consolidated document.\<close>

record data_sources =
  attack_techniques_count :: nat
  attack_mitigations_count :: nat
  capec_patterns_count :: nat
  d3fend_available :: bool
  stride_categories :: nat

record metadata =
  generated_at :: string
  version :: string
  md_mapping_source :: string
  data_sources :: data_sources

record coverage =
  cov_capec_count :: nat
  cov_attack_count :: nat

record framework_stats =
  total_capec_mapped :: nat
  total_attack_mapped :: nat
  coverage_by_category :: "(string \<times> coverage) list"

record sample_data =
  sample_attack_techniques :: "technique list"
  sample_attack_mitigations :: "mitigation list"
  sample_capec_patterns :: "pattern list"

record consolidated =
  metadata :: metadata
  stride_mapping :: "(string \<times> category_mapping) list"
  framework_stats :: framework_stats
  sample_data :: sample_data

text \<open>The dictionary \<open>consolidated\<close>, from the parsed lists (\<open>patterns\<close> is the variable
  \<open>capec_patterns\<close> of the script), the document of D3FEND and the time.\<close>

definition build_consolidated ::
  "string \<Rightarrow> technique list \<Rightarrow> mitigation list \<Rightarrow> pattern list \<Rightarrow> document \<Rightarrow> consolidated"
  where
  "build_consolidated time techniques mitigations patterns d3fend_data =
     (let stride_mapping =
            create_stride_mapping_with_real_data stride_capec_mappings techniques patterns
      in \<lparr>metadata =
            \<lparr>generated_at = time,
             version = ''2.0'',
             md_mapping_source = ''Official STRIDE-CAPEC mappings from community research'',
             data_sources =
               \<lparr>attack_techniques_count = length techniques,
                attack_mitigations_count = length mitigations,
                capec_patterns_count = length patterns,
                d3fend_available = truthy d3fend_data,
                stride_categories = length stride_capec_mappings\<rparr>\<rparr>,
          stride_mapping = stride_mapping,
          framework_stats =
            \<lparr>total_capec_mapped =
               sum_list (map (\<lambda>(category, entry). length (capec_patterns entry)) stride_mapping),
             total_attack_mapped =
               sum_list (map (\<lambda>(category, entry). length (attack_techniques entry)) stride_mapping),
             coverage_by_category =
               map (\<lambda>(category, entry).
                      (category,
                       \<lparr>cov_capec_count = length (capec_patterns entry),
                        cov_attack_count = length (attack_techniques entry)\<rparr>))
                 stride_mapping\<rparr>,
          sample_data =
            \<lparr>sample_attack_techniques = take 10 techniques,
             sample_attack_mitigations = take 10 mitigations,
             sample_capec_patterns = take 10 patterns\<rparr>\<rparr>)"

text \<open>
  The run. An exception of a parser leaves the function; so does a failure to write
  the consolidated file, after the document is built.
\<close>

definition generate_consolidated_mapping :: "string \<Rightarrow> world \<Rightarrow> py_error + consolidated" where
  "generate_consolidated_mapping output_dir w =
     (let attack_data = fetch_attack_data w;
          capec_data = fetch_capec_data output_dir w;
          d3fend_data = fetch_d3fend_data output_dir w
      in case parse_attack_techniques attack_data of
           Inl e \<Rightarrow> Inl e
         | Inr techniques \<Rightarrow>
             (case parse_attack_mitigations attack_data of
                Inl e \<Rightarrow> Inl e
              | Inr mitigations \<Rightarrow>
                  (let patterns = parse_capec_patterns capec_data;
                       consolidated =
                         build_consolidated (now w) techniques mitigations patterns
                           d3fend_data
                   in if writable w (output_dir @ ''/consolidated_mapping.json'')
                      then Inr consolidated
                      else Inl (OSError (output_dir @ ''/consolidated_mapping.json'')))))"

section \<open>Inputs of the scenarios\<close>

definition new_pattern :: "string \<Rightarrow> string \<Rightarrow> string \<Rightarrow> pattern" where
  "new_pattern i n d =
     \<lparr>p_id = i, p_name = n, p_description = d, p_stix_id = '''', p_created = '''',
      p_modified = '''', p_external_references = []\<rparr>"

definition new_technique :: "string \<Rightarrow> string \<Rightarrow> string \<Rightarrow> technique" where
  "new_technique i n d =
     \<lparr>t_id = i, t_name = n, t_description = d, t_domain = ''attack_enterprise'',
      t_tactics = [], t_stix_id = '''', t_created = '''', t_modified = '''',
      t_external_references = []\<rparr>"

text \<open>A table whose category Spoofing repeats an identifier.\<close>

definition scenario_table :: stride_table where
  "scenario_table =
     [(''Spoofing'',
       \<lparr>description = ''Identity falsification attacks'',
        capec_ids = [''CAPEC-148'', ''CAPEC-148'', ''CAPEC-999'']\<rparr>)]"

definition rogue_ap :: technique where
  "rogue_ap = new_technique ''T1'' ''Rogue AP''
     ''An attacker sets up a fake access point to impersonate a legitimate network''"

text \<open>A technique whose name and description contain a keyword only where they touch.\<close>

definition boundary_technique :: technique where
  "boundary_technique = new_technique ''T0'' ''ofspo'' ''ofspo''"

text \<open>Outcomes for the scenarios: an endpoint that fails twice and then answers, and one
  that never answers.\<close>

definition sample_document :: document where
  "sample_document = \<lparr>objects = Some [], other_keys = [''type'', ''id'']\<rparr>"

definition fails_twice :: "nat \<Rightarrow> outcome" where
  "fails_twice attempt =
     (if attempt < 2 then Request_failed ''503 Server Error'' else Parsed sample_document)"

definition always_fails :: "nat \<Rightarrow> outcome" where
  "always_fails attempt = Request_failed ''timed out''"

text \<open>A STIX object with a type and a name and no other key, and a kill-chain phase
  without its \<open>phase_name\<close>.\<close>

definition new_object :: "string \<Rightarrow> string \<Rightarrow> stix_object" where
  "new_object ty n =
     \<lparr>o_type = Some ty, o_id = None, o_name = Some n, o_description = None,
      o_created = None, o_modified = None, o_external_references = None,
      o_kill_chain_phases = None\<rparr>"

definition unnamed_phase :: kill_chain_phase where
  "unnamed_phase = \<lparr>kill_chain_name = Some ''mitre-attack'', phase_name = None\<rparr>"

definition stix_bundle :: "stix_object list \<Rightarrow> document" where
  "stix_bundle objs = \<lparr>objects = Some objs, other_keys = [''type'', ''id'']\<rparr>"

text \<open>Two inputs of the parser of the techniques: one whose first object has a phase
  without name, and one whose attack-pattern objects are all well formed, beside a
  mitigation and an object without type.\<close>

definition malformed_input :: "(string \<times> document) list" where
  "malformed_input =
     [(''attack_enterprise'',
       stix_bundle
         [(new_object ''attack-pattern'' ''A'')\<lparr>o_kill_chain_phases := Some [unnamed_phase]\<rparr>,
          new_object ''attack-pattern'' ''B''])]"

definition well_formed_input :: "(string \<times> document) list" where
  "well_formed_input =
     [(''attack_enterprise'',
       stix_bundle
         [new_object ''attack-pattern'' ''B'',
          new_object ''course-of-action'' ''M'',
          (new_object ''attack-pattern'' ''D'')\<lparr>o_type := None\<rparr>,
          (new_object ''attack-pattern'' ''C'')
            \<lparr>o_kill_chain_phases :=
               Some [\<lparr>kill_chain_name = Some ''mitre-attack'',
                      phase_name = Some ''initial-access''\<rparr>]\<rparr>])]"

text \<open>
  A world in which the enterprise catalog answers at once with a bundle of the given
  objects, every other endpoint refuses every attempt, and every file can be written.
\<close>

definition enterprise_only :: "stix_object list \<Rightarrow> world" where
  "enterprise_only objs =
     \<lparr>net = (\<lambda>url attempt.
               if url = ''https://raw.githubusercontent.com/mitre-attack/attack-stix-data/master/enterprise-attack/enterprise-attack.json''
               then Parsed (stix_bundle objs)
               else Request_failed ''connection refused''),
      writable = (\<lambda>file. True),
      now = ''2025-08-18T12:00:00''\<rparr>"

definition two_objects :: "stix_object list" where
  "two_objects =
     [new_object ''attack-pattern'' ''Phishing'',
      new_object ''course-of-action'' ''User Training'']"

definition user_training :: mitigation where
  "user_training =
     \<lparr>m_id = '''', m_name = ''User Training'', m_description = '''',
      m_domain = ''attack_enterprise'', m_stix_id = '''', m_created = '''',
      m_modified = '''', m_external_references = []\<rparr>"

definition twelve_names :: "string list" where
  "twelve_names =
     [''T01'', ''T02'', ''T03'', ''T04'', ''T05'', ''T06'',
      ''T07'', ''T08'', ''T09'', ''T10'', ''T11'', ''T12'']"

text \<open>
  The URL of a source, and a world in which the listed URLs answer at the first attempt
  with a bundle of the given objects while every other URL refuses every attempt.
\<close>

definition url_of :: "string \<Rightarrow> string" where
  "url_of name = (case map_of sources name of None \<Rightarrow> '''' | Some url \<Rightarrow> url)"

definition answering :: "(string \<times> stix_object list) list \<Rightarrow> (string \<Rightarrow> bool) \<Rightarrow> world" where
  "answering docs can_write =
     \<lparr>net = (\<lambda>url attempt.
               case map_of docs url of
                 None \<Rightarrow> Request_failed ''connection refused''
               | Some objs \<Rightarrow> Parsed (stix_bundle objs)),
      writable = can_write,
      now = ''2025-08-18T12:00:00''\<rparr>"

definition capec_object :: stix_object where
  "capec_object =
     (new_object ''attack-pattern'' ''Content Spoofing'')
       \<lparr>o_external_references :=
          Some [\<lparr>source_name = Some ''capec'', external_id = Some ''CAPEC-148''\<rparr>]\<rparr>"

text \<open>Four runs: the pattern catalog is down and the consolidated file cannot be written;
  D3FEND is down and the raw copy of the pattern catalog cannot be saved; the mobile
  catalog is down; the mobile catalog answers with an empty bundle.\<close>

definition final_unwritable :: world where
  "final_unwritable =
     answering [(url_of ''attack_enterprise'', two_objects)] (\<lambda>file. False)"

definition capec_unsaved :: world where
  "capec_unsaved =
     answering [(url_of ''attack_enterprise'', two_objects),
                (url_of ''capec_stix'', [capec_object])]
       (\<lambda>file. file \<noteq> ''cybersec_data/capec_raw.json'')"

definition mobile_down :: world where
  "mobile_down =
     answering [(url_of ''attack_enterprise'', two_objects)] (\<lambda>file. True)"

definition mobile_empty :: world where
  "mobile_empty =
     answering [(url_of ''attack_enterprise'', two_objects), (url_of ''attack_mobile'', [])]
       (\<lambda>file. True)"

text \<open>The world of \<open>mobile_down\<close> in which the pattern catalog answers too.\<close>

definition capec_answers :: world where
  "capec_answers =
     answering [(url_of ''attack_enterprise'', two_objects),
                (url_of ''capec_stix'', [capec_object])]
       (\<lambda>file. True)"

section \<open>Facts about the correlation\<close>

lemma fold_index_Some:
  assumes "fold (\<lambda>pattern m. if p_id pattern \<noteq> [] then m(p_id pattern \<mapsto> pattern) else m)
             patterns m0 k = Some p"
  shows "m0 k = Some p \<or> (p_id p = k \<and> k \<noteq> [] \<and> p \<in> set patterns)"
  using assms
proof (induction patterns arbitrary: m0)
  case Nil
  then show ?case by simp
next
  case (Cons q qs)
  let ?m1 = "if p_id q \<noteq> [] then m0(p_id q \<mapsto> q) else m0"
  from Cons.prems have "fold (\<lambda>pattern m. if p_id pattern \<noteq> [] then m(p_id pattern \<mapsto> pattern) else m)
      qs ?m1 k = Some p"
    by simp
  from Cons.IH [OF this]
  have "?m1 k = Some p \<or> (p_id p = k \<and> k \<noteq> [] \<and> p \<in> set qs)" .
  then show ?case
    by (auto split: if_splits)
qed

lemma capec_by_id_of_Some:
  "capec_by_id_of patterns k = Some p \<Longrightarrow> p_id p = k \<and> k \<noteq> [] \<and> p \<in> set patterns"
  unfolding capec_by_id_of_def by (drule fold_index_Some) simp

lemma fold_index_dom:
  "dom (fold (\<lambda>pattern m. if p_id pattern \<noteq> [] then m(p_id pattern \<mapsto> pattern) else m)
          patterns m0) = dom m0 \<union> {k \<in> p_id ` set patterns. k \<noteq> []}"
  by (induction patterns arbitrary: m0) auto

lemma dom_capec_by_id_of:
  "dom (capec_by_id_of patterns) = {k \<in> p_id ` set patterns. k \<noteq> []}"
  by (simp add: capec_by_id_of_def fold_index_dom)

lemma map_capec_patterns_fst:
  "fst (map_capec_patterns m ids (acc, found)) =
     acc @ map (\<lambda>i. summary_of_pattern (the (m i))) (filter (\<lambda>i. m i \<noteq> None) ids)"
  by (induction ids arbitrary: acc found) (auto split: option.splits)

lemma ps_id_summary_of_pattern: "ps_id (summary_of_pattern p) = p_id p"
  by (simp add: summary_of_pattern_def)

text \<open>The identifiers emitted for a curated list are the curated list itself, in its
  order, without the identifiers that the index lacks; a repeated identifier stays
  repeated.\<close>

lemma emitted_ids:
  "map ps_id (fst (map_capec_patterns (capec_by_id_of patterns) ids ([], {}))) =
     filter (\<lambda>i. i \<in> dom (capec_by_id_of patterns)) ids"
proof -
  have "map (\<lambda>i. p_id (the (capec_by_id_of patterns i)))
          (filter (\<lambda>i. capec_by_id_of patterns i \<noteq> None) ids) =
        filter (\<lambda>i. capec_by_id_of patterns i \<noteq> None) ids"
    by (induction ids) (auto dest: capec_by_id_of_Some)
  then show ?thesis
    by (simp add: map_capec_patterns_fst comp_def ps_id_summary_of_pattern dom_def)
qed

lemma entry_in_result:
  assumes "(category, entry) \<in> set (create_stride_mapping_with_real_data table techniques patterns)"
  shows "\<exists>info. (category, info) \<in> set table \<and>
           entry = category_entry (capec_by_id_of patterns) techniques category info"
  using assms by (auto simp: create_stride_mapping_with_real_data_def)

text \<open>Every emitted identifier is in the curated list of its category and is a key of
  the index, and each identifier is emitted as often as the curated list has it.\<close>

lemma emitted_ids_of_category:
  assumes "(category, entry) \<in> set (create_stride_mapping_with_real_data table techniques patterns)"
  shows "\<exists>info. (category, info) \<in> set table \<and>
           map ps_id (capec_patterns entry) =
             filter (\<lambda>i. i \<in> dom (capec_by_id_of patterns)) (capec_ids info)"
proof -
  from entry_in_result [OF assms] obtain info where
    info: "(category, info) \<in> set table"
      "entry = category_entry (capec_by_id_of patterns) techniques category info"
    by blast
  have "map ps_id (capec_patterns entry) =
          filter (\<lambda>i. i \<in> dom (capec_by_id_of patterns)) (capec_ids info)"
    by (simp add: info(2) category_entry_def Let_def emitted_ids)
  with info(1) show ?thesis by blast
qed

lemma map_attack_techniques_eq:
  "map_attack_techniques keywords techniques acc =
     acc @ map summary_of_technique (filter (matches_keywords keywords) techniques)"
  by (induction techniques arbitrary: acc) simp_all

lemmas correlation_defs =
  create_stride_mapping_with_real_data_def capec_by_id_of_def category_entry_def
  summary_of_pattern_def summary_of_technique_def keywords_of_def stride_keywords_def
  matches_keywords_def desc_lower_def lower_def lower_char_def

section \<open>Claims about the correlation\<close>

text \<open>
  Claim C1. The claim is that the list of matched patterns of a category holds every
  identifier at most once, also when the curated list repeats it, and that the patterns
  \<open>{CAPEC-148}\<close> with the curated list \<open>[CAPEC-148, CAPEC-148, CAPEC-999]\<close> give one entry
  and \<open>capec_count = 1\<close>. The function emits one summary per occurrence in the curated
  list: on that input the list of Spoofing holds \<open>CAPEC-148\<close> twice and \<open>capec_count\<close>
  is 2; and with the table of the script, whose category Repudiation lists \<open>CAPEC-93\<close>
  twice, the single pattern \<open>CAPEC-93\<close> is emitted twice for Repudiation.
\<close>

theorem C1_repeated_identifier_emitted_twice:
  "map_option (map ps_id \<circ> capec_patterns)
     (map_of (create_stride_mapping_with_real_data scenario_table []
                [new_pattern ''CAPEC-148'' ''Content Spoofing'' '''']) ''Spoofing'')
     = Some [''CAPEC-148'', ''CAPEC-148'']
   \<and> map_option capec_count
     (map_of (create_stride_mapping_with_real_data scenario_table []
                [new_pattern ''CAPEC-148'' ''Content Spoofing'' '''']) ''Spoofing'')
     = Some 2
   \<and> map_option (map ps_id \<circ> capec_patterns)
     (map_of (create_stride_mapping_with_real_data stride_capec_mappings []
                [new_pattern ''CAPEC-93'' ''Log Injection-Tampering-Forging'' '''']) ''Repudiation'')
     = Some [''CAPEC-93'', ''CAPEC-93'']"
  by (simp add: correlation_defs new_pattern_def scenario_table_def stride_capec_mappings_def)

text \<open>
  Claim C2. The claim has two halves: every emitted identifier is in the curated list of
  its category and is a key of the index (this half holds, see \<open>emitted_ids_of_category\<close>),
  and every curated identifier that the index has is emitted exactly once. The second
  half fails where the curated list repeats an identifier: with the table of the script
  and the single pattern \<open>CAPEC-122\<close>, the output of Elevation of Privilege holds
  \<open>CAPEC-122\<close> three times.
\<close>

theorem C2_curated_identifier_emitted_three_times:
  "map_option (\<lambda>entry. count_list (map ps_id (capec_patterns entry)) ''CAPEC-122'')
     (map_of (create_stride_mapping_with_real_data stride_capec_mappings []
                [new_pattern ''CAPEC-122'' ''Privilege Abuse'' ''''])
        ''Elevation of Privilege'')
     = Some 3"
  by (simp add: correlation_defs new_pattern_def stride_capec_mappings_def)

text \<open>
  Claim C3, as stated: a technique is in the list of a category if and only if the
  lowercased concatenation of its name and its description contains a keyword of the
  category. The function tests the description, one space and the name, in this order,
  so a keyword that only arises where name and description touch is not seen. The
  technique with name \<open>ofspo\<close> and description \<open>ofspo\<close> contains the keyword \<open>spoof\<close> of
  Spoofing in the concatenation of the two, in either order, and is not in the list of
  Spoofing.
\<close>

theorem C3_counterexample:
  "''spoof'' \<in> set (keywords_of ''Spoofing'')
   \<and> sublist ''spoof'' (lower (t_name boundary_technique @ t_description boundary_technique))
   \<and> sublist ''spoof'' (lower (t_description boundary_technique @ t_name boundary_technique))
   \<and> map_option attack_techniques
       (map_of (create_stride_mapping_with_real_data stride_capec_mappings
                  [boundary_technique] []) ''Spoofing'')
     = Some []"
  by (simp add: correlation_defs boundary_technique_def new_technique_def
      stride_capec_mappings_def
      sublist_Cons_right)

text \<open>
  Claim C3, amended: for every category of the result, its list of techniques is the list
  of the summaries of exactly those techniques whose lowercased text
  \<open>description + ' ' + name\<close> contains at least one keyword of the category, in the order
  of the technique list. The test of a technique for one category does not look at any
  other category, so a technique is in the lists of none, one or several categories.
\<close>

theorem C3_techniques_of_category:
  assumes "(category, entry) \<in> set (create_stride_mapping_with_real_data table techniques patterns)"
  shows "attack_techniques entry =
           map summary_of_technique
             (filter (\<lambda>tech. \<exists>keyword \<in> set (keywords_of category).
                        sublist keyword (lower (t_description tech @ '' '' @ t_name tech)))
                techniques)"
proof -
  from entry_in_result [OF assms] obtain info where
    "entry = category_entry (capec_by_id_of patterns) techniques category info"
    by blast
  moreover have "matches_keywords (keywords_of category) =
      (\<lambda>tech. \<exists>keyword \<in> set (keywords_of category).
          sublist keyword (lower (t_description tech @ '' '' @ t_name tech)))"
    by (rule ext) (simp add: matches_keywords_def desc_lower_def list_ex_iff)
  ultimately show ?thesis
    by (simp add: category_entry_def Let_def map_attack_techniques_eq)
qed

text \<open>The technique Rogue AP, whose description has \<open>fake\<close> and \<open>impersonat\<close>, is in the
  list of Spoofing and not in the list of Tampering.\<close>

theorem C3_techniques_of_category_witness:
  "(''Spoofing'', category_entry Map.empty [rogue_ap] ''Spoofing'' (snd (stride_capec_mappings ! 0)))
     \<in> set (create_stride_mapping_with_real_data stride_capec_mappings [rogue_ap] [])
   \<and> attack_techniques
        (category_entry Map.empty [rogue_ap] ''Spoofing'' (snd (stride_capec_mappings ! 0)))
      = [summary_of_technique rogue_ap]
   \<and> (''Tampering'', category_entry Map.empty [rogue_ap] ''Tampering'' (snd (stride_capec_mappings ! 1)))
     \<in> set (create_stride_mapping_with_real_data stride_capec_mappings [rogue_ap] [])
   \<and> attack_techniques
        (category_entry Map.empty [rogue_ap] ''Tampering'' (snd (stride_capec_mappings ! 1)))
      = []"
proof -
  have s: "(''Spoofing'', category_entry Map.empty [rogue_ap] ''Spoofing'' (snd (stride_capec_mappings ! 0)))
     \<in> set (create_stride_mapping_with_real_data stride_capec_mappings [rogue_ap] [])"
    by (simp add: create_stride_mapping_with_real_data_def capec_by_id_of_def
        stride_capec_mappings_def Let_def)
  have t: "(''Tampering'', category_entry Map.empty [rogue_ap] ''Tampering'' (snd (stride_capec_mappings ! 1)))
     \<in> set (create_stride_mapping_with_real_data stride_capec_mappings [rogue_ap] [])"
    by (simp add: create_stride_mapping_with_real_data_def capec_by_id_of_def
        stride_capec_mappings_def Let_def)
  have ks: "keywords_of ''Spoofing'' =
      [''spoof'', ''fake'', ''impersonat'', ''masquerad'', ''phish'', ''identity'', ''forge'']"
    by (simp add: keywords_of_def stride_keywords_def)
  have kt: "keywords_of ''Tampering'' =
      [''tamper'', ''modify'', ''alter'', ''corrupt'', ''manipulat'', ''inject'', ''poison'']"
    by (simp add: keywords_of_def stride_keywords_def)
  have low: "lower (t_description rogue_ap @ CHR '' '' # t_name rogue_ap) =
      ''an attacker sets up a fake access point to impersonate a legitimate network rogue ap''"
    by (simp add: rogue_ap_def new_technique_def lower_def lower_char_def)
  from C3_techniques_of_category [OF s]
  have "attack_techniques
          (category_entry Map.empty [rogue_ap] ''Spoofing'' (snd (stride_capec_mappings ! 0)))
        = [summary_of_technique rogue_ap]"
    by (simp add: ks low sublist_Cons_right)
  moreover from C3_techniques_of_category [OF t]
  have "attack_techniques
          (category_entry Map.empty [rogue_ap] ''Tampering'' (snd (stride_capec_mappings ! 1)))
        = []"
    by (simp add: kt low sublist_Cons_right)
  ultimately show ?thesis using s t by blast
qed

section \<open>Facts about the fetcher\<close>

lemma attempts_success:
  assumes "a \<le> k" and "k < n"
    and "\<forall>i. a \<le> i \<and> i < k \<longrightarrow> resp i = Request_failed (err i)"
    and "resp k = Parsed doc"
  shows "attempts resp url (int n) [a..<n] =
           (concat (map (\<lambda>i. [Log_downloading url (i + 1), Http_get url,
                               Log_attempt_failed (i + 1) (err i), Sleep (2 ^ i)]) [a..<k])
              @ [Log_downloading url (k + 1), Http_get url],
            Inr (Some doc))"
  using assms
proof (induction "k - a" arbitrary: a)
  case 0
  then have "a = k" by simp
  moreover from \<open>k < n\<close> have "[k..<n] = k # [Suc k..<n]"
    by (simp add: upt_conv_Cons)
  ultimately show ?case using \<open>resp k = Parsed doc\<close> by simp
next
  case (Suc d)
  then have lt: "a < k" by simp
  with \<open>k < n\<close> have an: "a < n" and small: "int a < int n - 1" by simp_all
  from lt Suc.prems have ra: "resp a = Request_failed (err a)" by simp
  have range_n: "[a..<n] = a # [Suc a..<n]" using an by (simp add: upt_conv_Cons)
  have range_k: "[a..<k] = a # [Suc a..<k]" using lt by (simp add: upt_conv_Cons)
  have "d = k - Suc a" using Suc.hyps(2) by simp
  moreover have "Suc a \<le> k" using lt by simp
  moreover have "\<forall>i. Suc a \<le> i \<and> i < k \<longrightarrow> resp i = Request_failed (err i)"
    using Suc.prems(3) by simp
  ultimately have "attempts resp url (int n) [Suc a..<n] =
           (concat (map (\<lambda>i. [Log_downloading url (i + 1), Http_get url,
                               Log_attempt_failed (i + 1) (err i), Sleep (2 ^ i)]) [Suc a..<k])
              @ [Log_downloading url (k + 1), Http_get url],
            Inr (Some doc))"
    using Suc.hyps(1) \<open>k < n\<close> \<open>resp k = Parsed doc\<close> by blast
  then show ?case
    by (simp add: range_n range_k ra small)
qed

lemma attempts_exhausted:
  assumes "a < n"
    and "\<forall>i. a \<le> i \<and> i < n \<longrightarrow> resp i = Request_failed (err i)"
  shows "attempts resp url (int n) [a..<n] =
           (concat (map (\<lambda>i. [Log_downloading url (i + 1), Http_get url,
                               Log_attempt_failed (i + 1) (err i), Sleep (2 ^ i)]) [a..<n - 1])
              @ [Log_downloading url n, Http_get url,
                 Log_attempt_failed n (err (n - 1)), Log_permanent_failure url],
            Inl (RequestException (err (n - 1))))"
  using assms
proof (induction "n - a" arbitrary: a)
  case 0
  then show ?case by simp
next
  case (Suc d)
  from Suc.prems have ra: "resp a = Request_failed (err a)" by simp
  have range_n: "[a..<n] = a # [Suc a..<n]" using \<open>a < n\<close> by (simp add: upt_conv_Cons)
  show ?case
  proof (cases "Suc a = n")
    case True
    then have "\<not> int a < int n - 1" and "[Suc a..<n] = []" and "[a..<n - 1] = []"
      and "n - 1 = a" and "a + 1 = n"
      by auto
    then show ?thesis by (simp add: range_n ra)
  next
    case False
    with \<open>a < n\<close> have lt: "Suc a < n" and small: "int a < int n - 1" by simp_all
    have range_m: "[a..<n - Suc 0] = a # [Suc a..<n - Suc 0]"
      using lt by (simp add: upt_conv_Cons)
    have "d = n - Suc a" using Suc.hyps(2) by simp
    moreover have "\<forall>i. Suc a \<le> i \<and> i < n \<longrightarrow> resp i = Request_failed (err i)"
      using Suc.prems(2) by simp
    ultimately have "attempts resp url (int n) [Suc a..<n] =
           (concat (map (\<lambda>i. [Log_downloading url (i + 1), Http_get url,
                               Log_attempt_failed (i + 1) (err i), Sleep (2 ^ i)]) [Suc a..<n - 1])
              @ [Log_downloading url n, Http_get url,
                 Log_attempt_failed n (err (n - 1)), Log_permanent_failure url],
            Inl (RequestException (err (n - 1))))"
      using Suc.hyps(1) lt by blast
    then show ?thesis
      by (simp add: range_n range_m ra small)
  qed
qed

text \<open>With at least one attempt allowed the function never falls out of its loop.\<close>

lemma attempts_not_None:
  assumes "a < n"
  shows "snd (attempts resp url (int n) [a..<n]) \<noteq> Inr None"
  using assms
proof (induction "n - a" arbitrary: a)
  case 0
  then show ?case by simp
next
  case (Suc d)
  have range_n: "[a..<n] = a # [Suc a..<n]" using \<open>a < n\<close> by (simp add: upt_conv_Cons)
  show ?case
  proof (cases "Suc a = n")
    case True
    then have "\<not> int a < int n - 1" by simp
    then show ?thesis by (simp add: range_n split: outcome.splits)
  next
    case False
    with \<open>a < n\<close> have lt: "Suc a < n" by simp
    have "d = n - Suc a" using Suc.hyps(2) by simp
    with Suc.hyps(1) lt have "snd (attempts resp url (int n) [Suc a..<n]) \<noteq> Inr None"
      by blast
    then show ?thesis
      by (auto simp: range_n split: outcome.splits prod.splits)
  qed
qed

lemma download_with_retry_not_None:
  "0 < max_retries \<Longrightarrow> snd (download_with_retry resp url max_retries) \<noteq> Inr None"
  using attempts_not_None [of 0 "nat max_retries" resp url]
  by (simp add: download_with_retry_def)

section \<open>Claims about the fetcher\<close>

text \<open>
  Claim C4. With a maximum of \<open>max_retries\<close> attempts, at least one (the default is 3, and
  C9 is about a maximum below one), the function makes the first request at once.
  If the attempts before attempt \<open>k\<close> (zero-based) fail with a request error and attempt
  \<open>k\<close> gives a document, the function returns that document; it has made \<open>k + 1\<close> requests
  and has slept \<open>2 ^ i\<close> seconds after each failed attempt \<open>i\<close>, and nothing follows the
  successful request. If all attempts fail, it sleeps after every failed attempt but
  the last, logs the permanent failure of the URL and raises the error of the last
  attempt.
\<close>

theorem C4_download_with_retry:
  assumes "0 < max_retries"
  shows "(\<forall>k doc. k < nat max_retries \<and> (\<forall>i<k. resp i = Request_failed (err i))
            \<and> resp k = Parsed doc \<longrightarrow>
          download_with_retry resp url max_retries =
            (concat (map (\<lambda>i. [Log_downloading url (i + 1), Http_get url,
                                Log_attempt_failed (i + 1) (err i), Sleep (2 ^ i)]) [0..<k])
               @ [Log_downloading url (k + 1), Http_get url],
             Inr (Some doc)))
       \<and> ((\<forall>i < nat max_retries. resp i = Request_failed (err i)) \<longrightarrow>
          download_with_retry resp url max_retries =
            (concat (map (\<lambda>i. [Log_downloading url (i + 1), Http_get url,
                                Log_attempt_failed (i + 1) (err i), Sleep (2 ^ i)])
                       [0..<nat max_retries - 1])
               @ [Log_downloading url (nat max_retries), Http_get url,
                  Log_attempt_failed (nat max_retries) (err (nat max_retries - 1)),
                  Log_permanent_failure url],
             Inl (RequestException (err (nat max_retries - 1)))))"
proof -
  from assms have n: "0 \<le> max_retries" and pos: "0 < nat max_retries"
    by simp_all
  have success: "download_with_retry resp url max_retries =
            (concat (map (\<lambda>i. [Log_downloading url (i + 1), Http_get url,
                                Log_attempt_failed (i + 1) (err i), Sleep (2 ^ i)]) [0..<k])
               @ [Log_downloading url (k + 1), Http_get url],
             Inr (Some doc))"
    if "k < nat max_retries" and "\<forall>i<k. resp i = Request_failed (err i)"
      and "resp k = Parsed doc" for k doc
    using attempts_success [of 0 k "nat max_retries" resp err doc url] that
    by (simp add: download_with_retry_def n)
  have exhausted: "download_with_retry resp url max_retries =
            (concat (map (\<lambda>i. [Log_downloading url (i + 1), Http_get url,
                                Log_attempt_failed (i + 1) (err i), Sleep (2 ^ i)])
                       [0..<nat max_retries - 1])
               @ [Log_downloading url (nat max_retries), Http_get url,
                  Log_attempt_failed (nat max_retries) (err (nat max_retries - 1)),
                  Log_permanent_failure url],
             Inl (RequestException (err (nat max_retries - 1))))"
    if "\<forall>i < nat max_retries. resp i = Request_failed (err i)"
    using attempts_exhausted [of 0 "nat max_retries" resp err url] that pos
    by (simp add: download_with_retry_def n)
  from success exhausted show ?thesis by blast
qed

text \<open>An endpoint that fails at the attempts 1 and 2 and answers at attempt 3, with the
  default maximum: the document of attempt 3 is returned after two sleeps, of 1 and 2
  seconds, and three requests. An endpoint that fails three times: two sleeps, three
  requests, and the error of the third attempt is raised.\<close>

theorem C4_download_with_retry_witness:
  "(0::int) < 3
   \<and> download_with_retry fails_twice ''https://example.org/a.json'' 3 =
       ([Log_downloading ''https://example.org/a.json'' 1, Http_get ''https://example.org/a.json'',
         Log_attempt_failed 1 ''503 Server Error'', Sleep 1,
         Log_downloading ''https://example.org/a.json'' 2, Http_get ''https://example.org/a.json'',
         Log_attempt_failed 2 ''503 Server Error'', Sleep 2,
         Log_downloading ''https://example.org/a.json'' 3, Http_get ''https://example.org/a.json''],
        Inr (Some sample_document))
   \<and> download_with_retry always_fails ''https://example.org/a.json'' 3 =
       ([Log_downloading ''https://example.org/a.json'' 1, Http_get ''https://example.org/a.json'',
         Log_attempt_failed 1 ''timed out'', Sleep 1,
         Log_downloading ''https://example.org/a.json'' 2, Http_get ''https://example.org/a.json'',
         Log_attempt_failed 2 ''timed out'', Sleep 2,
         Log_downloading ''https://example.org/a.json'' 3, Http_get ''https://example.org/a.json'',
         Log_attempt_failed 3 ''timed out'',
         Log_permanent_failure ''https://example.org/a.json''],
        Inl (RequestException ''timed out''))"
proof -
  have h: "(0::int) < 3" by simp
  have two: "[0..<2] = [0, Suc 0]" by (simp add: upt_rec)
  from C4_download_with_retry [OF h, of fails_twice "\<lambda>_. ''503 Server Error''"
      "''https://example.org/a.json''", THEN conjunct1, THEN spec, THEN spec,
      of 2 sample_document]
  have s: "download_with_retry fails_twice ''https://example.org/a.json'' 3 =
       ([Log_downloading ''https://example.org/a.json'' 1, Http_get ''https://example.org/a.json'',
         Log_attempt_failed 1 ''503 Server Error'', Sleep 1,
         Log_downloading ''https://example.org/a.json'' 2, Http_get ''https://example.org/a.json'',
         Log_attempt_failed 2 ''503 Server Error'', Sleep 2,
         Log_downloading ''https://example.org/a.json'' 3, Http_get ''https://example.org/a.json''],
        Inr (Some sample_document))"
    by (simp add: fails_twice_def two)
  from C4_download_with_retry [OF h, of always_fails "\<lambda>_. ''timed out''"
      "''https://example.org/a.json''", THEN conjunct2]
  have f: "download_with_retry always_fails ''https://example.org/a.json'' 3 =
       ([Log_downloading ''https://example.org/a.json'' 1, Http_get ''https://example.org/a.json'',
         Log_attempt_failed 1 ''timed out'', Sleep 1,
         Log_downloading ''https://example.org/a.json'' 2, Http_get ''https://example.org/a.json'',
         Log_attempt_failed 2 ''timed out'', Sleep 2,
         Log_downloading ''https://example.org/a.json'' 3, Http_get ''https://example.org/a.json'',
         Log_attempt_failed 3 ''timed out'',
         Log_permanent_failure ''https://example.org/a.json''],
        Inl (RequestException ''timed out''))"
    by (simp add: always_fails_def two)
  from h s f show ?thesis by blast
qed

text \<open>
  Claim C9. With a maximum of zero attempts, or a negative one, the range of the loop
  is empty: the function makes no request, logs nothing, raises nothing and returns
  \<open>None\<close>.
\<close>

theorem C9_no_attempt_returns_None:
  assumes "max_retries \<le> 0"
  shows "download_with_retry resp url max_retries = ([], Inr None)"
  using assms by (simp add: download_with_retry_def)

theorem C9_no_attempt_returns_None_witness:
  "(0::int) \<le> 0 \<and> (-1::int) \<le> 0
   \<and> download_with_retry always_fails ''https://example.org/a.json'' 0 = ([], Inr None)
   \<and> download_with_retry fails_twice ''https://example.org/a.json'' (-1) = ([], Inr None)"
  using C9_no_attempt_returns_None [of 0 always_fails "''https://example.org/a.json''"]
    C9_no_attempt_returns_None [of "-1" fails_twice "''https://example.org/a.json''"]
  by simp

section \<open>Facts about the normalizer\<close>

lemma phase_names_eq:
  "phase_names phases =
     (if \<forall>phase \<in> set phases. phase_name phase \<noteq> None
      then Inr (map (\<lambda>phase. the (phase_name phase)) phases)
      else Inl (KeyError ''phase_name''))"
  by (induction phases) (auto split: option.splits)

lemma first_external_id_Inr:
  "o_external_references obj \<noteq> Some [] \<Longrightarrow> \<exists>i. first_external_id obj = Inr i"
  by (auto simp: first_external_id_def split: option.splits list.splits)

lemma technique_of_object_cases:
  assumes "o_external_references obj \<noteq> Some []"
  shows "if \<forall>phase \<in> set (get_list (o_kill_chain_phases obj)). phase_name phase \<noteq> None
         then \<exists>t. technique_of_object domain obj = Inr t
         else technique_of_object domain obj = Inl (KeyError ''phase_name'')"
proof -
  from first_external_id_Inr [OF assms] obtain i where "first_external_id obj = Inr i" ..
  then show ?thesis
    by (simp add: technique_of_object_def phase_names_eq)
qed

lemma technique_objects_ok:
  assumes "\<forall>obj \<in> set objs. o_type obj = Some ''attack-pattern'' \<longrightarrow>
             (\<exists>t. technique_of_object domain obj = Inr t)"
  shows "\<exists>ts. technique_objects domain objs acc = Inr (acc @ ts) \<and>
           map Inr ts = map (technique_of_object domain)
                          (filter (\<lambda>obj. o_type obj = Some ''attack-pattern'') objs)"
  using assms
proof (induction objs arbitrary: acc)
  case Nil
  then show ?case by simp
next
  case (Cons obj rest)
  then have rest: "\<forall>obj \<in> set rest. o_type obj = Some ''attack-pattern'' \<longrightarrow>
             (\<exists>t. technique_of_object domain obj = Inr t)"
    by simp
  show ?case
  proof (cases "o_type obj = Some ''attack-pattern''")
    case True
    with Cons.prems obtain t where t: "technique_of_object domain obj = Inr t" by auto
    from Cons.IH [OF rest, of "acc @ [t]"] obtain ts where
      "technique_objects domain rest (acc @ [t]) = Inr ((acc @ [t]) @ ts)"
      "map Inr ts = map (technique_of_object domain)
                          (filter (\<lambda>obj. o_type obj = Some ''attack-pattern'') rest)"
      by blast
    with True t show ?thesis
      by (intro exI [of _ "t # ts"]) simp
  next
    case False
    with Cons.IH [OF rest, of acc] show ?thesis by simp
  qed
qed

lemma technique_objects_error:
  assumes "\<forall>obj \<in> set objs. o_type obj = Some ''attack-pattern'' \<longrightarrow>
             (\<exists>t. technique_of_object domain obj = Inr t) \<or>
             technique_of_object domain obj = Inl e"
    and "\<exists>obj \<in> set objs. o_type obj = Some ''attack-pattern'' \<and>
           technique_of_object domain obj = Inl e"
  shows "technique_objects domain objs acc = Inl e"
  using assms
proof (induction objs arbitrary: acc)
  case Nil
  then show ?case by simp
next
  case (Cons obj rest)
  show ?case
  proof (cases "o_type obj = Some ''attack-pattern'' \<and> technique_of_object domain obj = Inl e")
    case True
    then show ?thesis by simp
  next
    case False
    with Cons.prems have "\<forall>obj \<in> set rest. o_type obj = Some ''attack-pattern'' \<longrightarrow>
             (\<exists>t. technique_of_object domain obj = Inr t) \<or>
             technique_of_object domain obj = Inl e"
      and "\<exists>obj \<in> set rest. o_type obj = Some ''attack-pattern'' \<and>
           technique_of_object domain obj = Inl e"
      by auto
    from Cons.IH [OF this] have "technique_objects domain rest acc' = Inl e" for acc' .
    with False Cons.prems(1) show ?thesis by auto
  qed
qed

lemma technique_domains_Cons:
  "technique_domains ((domain, data) # rest) acc =
     (case technique_objects domain (get_list (objects data)) acc of
        Inl e \<Rightarrow> Inl e
      | Inr acc' \<Rightarrow> technique_domains rest acc')"
  by (simp add: get_list_def split: option.splits)

lemma technique_domains_ok:
  assumes "\<forall>(domain, data) \<in> set attack_data. \<forall>obj \<in> set (get_list (objects data)).
             o_type obj = Some ''attack-pattern'' \<longrightarrow>
             (\<exists>t. technique_of_object domain obj = Inr t)"
  shows "\<exists>ts. technique_domains attack_data acc = Inr (acc @ ts) \<and>
           map Inr ts =
             concat (map (\<lambda>(domain, data).
                        map (technique_of_object domain)
                          (filter (\<lambda>obj. o_type obj = Some ''attack-pattern'')
                             (get_list (objects data))))
                      attack_data)"
  using assms
proof (induction attack_data arbitrary: acc)
  case Nil
  then show ?case by simp
next
  case (Cons entry rest)
  obtain domain data where entry: "entry = (domain, data)" by (cases entry)
  from Cons.prems entry have "\<forall>obj \<in> set (get_list (objects data)).
             o_type obj = Some ''attack-pattern'' \<longrightarrow>
             (\<exists>t. technique_of_object domain obj = Inr t)"
    by simp
  from technique_objects_ok [OF this, of acc] obtain ts1 where ts1:
    "technique_objects domain (get_list (objects data)) acc = Inr (acc @ ts1)"
    "map Inr ts1 = map (technique_of_object domain)
                     (filter (\<lambda>obj. o_type obj = Some ''attack-pattern'')
                        (get_list (objects data)))"
    by blast
  from Cons.prems have "\<forall>(domain, data) \<in> set rest. \<forall>obj \<in> set (get_list (objects data)).
             o_type obj = Some ''attack-pattern'' \<longrightarrow>
             (\<exists>t. technique_of_object domain obj = Inr t)"
    by simp
  from Cons.IH [OF this, of "acc @ ts1"] obtain ts2 where ts2:
    "technique_domains rest (acc @ ts1) = Inr ((acc @ ts1) @ ts2)"
    "map Inr ts2 =
       concat (map (\<lambda>(domain, data).
                  map (technique_of_object domain)
                    (filter (\<lambda>obj. o_type obj = Some ''attack-pattern'')
                       (get_list (objects data))))
                rest)"
    by blast
  show ?case
    using ts1 ts2 unfolding entry
    by (intro exI [of _ "ts1 @ ts2"])
      (simp add: technique_domains_Cons del: technique_domains.simps)
qed

lemma technique_domains_error:
  assumes "\<forall>(domain, data) \<in> set attack_data. \<forall>obj \<in> set (get_list (objects data)).
             o_type obj = Some ''attack-pattern'' \<longrightarrow>
             (\<exists>t. technique_of_object domain obj = Inr t) \<or>
             technique_of_object domain obj = Inl e"
    and "\<exists>(domain, data) \<in> set attack_data. \<exists>obj \<in> set (get_list (objects data)).
           o_type obj = Some ''attack-pattern'' \<and> technique_of_object domain obj = Inl e"
  shows "technique_domains attack_data acc = Inl e"
  using assms
proof (induction attack_data arbitrary: acc)
  case Nil
  then show ?case by simp
next
  case (Cons entry rest)
  obtain domain data where entry: "entry = (domain, data)" by (cases entry)
  from Cons.prems(1) entry have here: "\<forall>obj \<in> set (get_list (objects data)).
             o_type obj = Some ''attack-pattern'' \<longrightarrow>
             (\<exists>t. technique_of_object domain obj = Inr t) \<or>
             technique_of_object domain obj = Inl e"
    by simp
  from Cons.prems(1) have later: "\<forall>(domain, data) \<in> set rest.
             \<forall>obj \<in> set (get_list (objects data)).
             o_type obj = Some ''attack-pattern'' \<longrightarrow>
             (\<exists>t. technique_of_object domain obj = Inr t) \<or>
             technique_of_object domain obj = Inl e"
    by simp
  show ?case
  proof (cases "\<exists>obj \<in> set (get_list (objects data)).
           o_type obj = Some ''attack-pattern'' \<and> technique_of_object domain obj = Inl e")
    case True
    from technique_objects_error [OF here True]
    show ?thesis unfolding entry
      by (simp add: technique_domains_Cons del: technique_domains.simps)
  next
    case False
    with here have "\<forall>obj \<in> set (get_list (objects data)).
             o_type obj = Some ''attack-pattern'' \<longrightarrow>
             (\<exists>t. technique_of_object domain obj = Inr t)"
      by blast
    from technique_objects_ok [OF this, of acc] obtain ts1 where
      ts1: "technique_objects domain (get_list (objects data)) acc = Inr (acc @ ts1)"
      by blast
    from False Cons.prems(2) entry
    have "\<exists>(domain, data) \<in> set rest. \<exists>obj \<in> set (get_list (objects data)).
           o_type obj = Some ''attack-pattern'' \<and> technique_of_object domain obj = Inl e"
      by auto
    from Cons.IH [OF later this] have "technique_domains rest acc' = Inl e" for acc' .
    with ts1 show ?thesis unfolding entry
      by (simp add: technique_domains_Cons del: technique_domains.simps)
  qed
qed

lemmas normalizer_defs =
  parse_attack_techniques_def parse_attack_mitigations_def parse_capec_patterns_def
  technique_of_object_def mitigation_of_object_def pattern_of_object_def
  first_external_id_def get_str_def get_list_def

section \<open>Claims about the normalizer\<close>

text \<open>
  Claim C5. The claim is that a technique or mitigation record whose list of external
  references is present and empty is normalized with the empty string as identifier.
  Both parsers take element 0 of that list: on an attack-pattern object, and on a
  course-of-action object, with \<open>external_references = []\<close> they raise \<open>IndexError\<close> and
  return no record. The default \<open>[{}]\<close> in the code gives the empty string only when the
  key is absent, and the parser of the patterns gives it for the empty list.
\<close>

theorem C5_empty_references_raise_IndexError:
  "parse_attack_techniques
     [(''attack_enterprise'',
       stix_bundle [(new_object ''attack-pattern'' ''Phishing'')\<lparr>o_external_references := Some []\<rparr>])]
     = Inl IndexError
   \<and> parse_attack_mitigations
     [(''attack_enterprise'',
       stix_bundle [(new_object ''course-of-action'' ''User Training'')\<lparr>o_external_references := Some []\<rparr>])]
     = Inl IndexError
   \<and> map t_id (projr (parse_attack_techniques
       [(''attack_enterprise'', stix_bundle [new_object ''attack-pattern'' ''Phishing''])])) = ['''']
   \<and> map p_id (parse_capec_patterns
       (stix_bundle [(new_object ''attack-pattern'' ''Phishing'')\<lparr>o_external_references := Some []\<rparr>]))
     = ['''']"
  by (simp add: normalizer_defs new_object_def stix_bundle_def)

text \<open>
  Claim C6, as stated: a record that lacks the expected shape is skipped and the other
  records of the document are returned. A document with two attack-pattern objects, the
  first with a kill-chain phase that has no \<open>phase_name\<close> and the second well formed: the
  parser raises \<open>KeyError\<close> and returns neither record.
\<close>

theorem C6_counterexample:
  "parse_attack_techniques
     [(''attack_enterprise'',
       stix_bundle [(new_object ''attack-pattern'' ''A'')\<lparr>o_kill_chain_phases := Some [unnamed_phase]\<rparr>,
               new_object ''attack-pattern'' ''B''])]
     = Inl (KeyError ''phase_name'')
   \<and> parse_attack_techniques
       [(''attack_enterprise'', stix_bundle [new_object ''attack-pattern'' ''B''])]
     = Inr [\<lparr>t_id = '''', t_name = ''B'', t_description = '''',
             t_domain = ''attack_enterprise'', t_tactics = [], t_stix_id = '''',
             t_created = '''', t_modified = '''', t_external_references = []\<rparr>]"
  by (simp add: normalizer_defs new_object_def stix_bundle_def unnamed_phase_def)

text \<open>
  Claim C6, amended. The documents are those whose keys, where present, have values of
  the expected types, and in which no attack-pattern object has a list of external
  references that is present and empty (the case of C5). An object whose type is absent
  or is not \<open>attack-pattern\<close> plays no part: it is left out of the result, and neither
  its phases nor its references are looked at. If every kill-chain phase of every
  attack-pattern object has its \<open>phase_name\<close>, the parser returns the normalized record
  of every attack-pattern object, in the order of the documents and of their objects.
  If one phase of one attack-pattern object lacks it, that object is not skipped: the
  whole call raises \<open>KeyError\<close> for \<open>phase_name\<close> and returns no record of any document.
\<close>

theorem C6_malformed_record_aborts_parse:
  assumes "\<forall>(domain, data) \<in> set attack_data. \<forall>obj \<in> set (get_list (objects data)).
             o_type obj = Some ''attack-pattern'' \<longrightarrow> o_external_references obj \<noteq> Some []"
  shows "if \<forall>(domain, data) \<in> set attack_data. \<forall>obj \<in> set (get_list (objects data)).
             o_type obj = Some ''attack-pattern'' \<longrightarrow>
             (\<forall>phase \<in> set (get_list (o_kill_chain_phases obj)). phase_name phase \<noteq> None)
         then \<exists>techniques. parse_attack_techniques attack_data = Inr techniques \<and>
                map Inr techniques =
                  concat (map (\<lambda>(domain, data).
                             map (technique_of_object domain)
                               (filter (\<lambda>obj. o_type obj = Some ''attack-pattern'')
                                  (get_list (objects data))))
                           attack_data)
         else parse_attack_techniques attack_data = Inl (KeyError ''phase_name'')"
proof -
  have good: "\<exists>t. technique_of_object domain obj = Inr t"
    if "(domain, data) \<in> set attack_data" and "obj \<in> set (get_list (objects data))"
      and "o_type obj = Some ''attack-pattern''"
      and "\<forall>phase \<in> set (get_list (o_kill_chain_phases obj)). phase_name phase \<noteq> None"
    for domain data obj
  proof -
    from assms that(1-3) have "o_external_references obj \<noteq> Some []" by auto
    from technique_of_object_cases [OF this, of domain] that(4) show ?thesis by simp
  qed
  have bad: "technique_of_object domain obj = Inl (KeyError ''phase_name'')"
    if "(domain, data) \<in> set attack_data" and "obj \<in> set (get_list (objects data))"
      and "o_type obj = Some ''attack-pattern''"
      and "\<not> (\<forall>phase \<in> set (get_list (o_kill_chain_phases obj)). phase_name phase \<noteq> None)"
    for domain data obj
  proof -
    from assms that(1-3) have "o_external_references obj \<noteq> Some []" by auto
    from technique_of_object_cases [OF this, of domain] that(4) show ?thesis by simp
  qed
  show ?thesis
  proof (cases "\<forall>(domain, data) \<in> set attack_data. \<forall>obj \<in> set (get_list (objects data)).
             o_type obj = Some ''attack-pattern'' \<longrightarrow>
             (\<forall>phase \<in> set (get_list (o_kill_chain_phases obj)). phase_name phase \<noteq> None)")
    case True
    have "\<forall>(domain, data) \<in> set attack_data. \<forall>obj \<in> set (get_list (objects data)).
             o_type obj = Some ''attack-pattern'' \<longrightarrow>
             (\<exists>t. technique_of_object domain obj = Inr t)"
    proof (intro ballI, clarify)
      fix domain data obj
      assume "(domain, data) \<in> set attack_data" "obj \<in> set (get_list (objects data))"
        "o_type obj = Some ''attack-pattern''"
      moreover with True
      have "\<forall>phase \<in> set (get_list (o_kill_chain_phases obj)). phase_name phase \<noteq> None"
        by blast
      ultimately show "\<exists>t. technique_of_object domain obj = Inr t" by (rule good)
    qed
    from technique_domains_ok [OF this, of "[]"] True show ?thesis
      by (simp add: parse_attack_techniques_def)
  next
    case False
    have all: "\<forall>(domain, data) \<in> set attack_data.
             \<forall>obj \<in> set (get_list (objects data)).
             o_type obj = Some ''attack-pattern'' \<longrightarrow>
             (\<exists>t. technique_of_object domain obj = Inr t) \<or>
             technique_of_object domain obj = Inl (KeyError ''phase_name'')"
    proof (intro ballI, clarify)
      fix domain data obj
      assume *: "(domain, data) \<in> set attack_data" "obj \<in> set (get_list (objects data))"
        "o_type obj = Some ''attack-pattern''"
        "technique_of_object domain obj \<noteq> Inl (KeyError ''phase_name'')"
      with bad [OF *(1-3)]
      have "\<forall>phase \<in> set (get_list (o_kill_chain_phases obj)). phase_name phase \<noteq> None"
        by blast
      with *(1-3) show "\<exists>t. technique_of_object domain obj = Inr t" by (rule good)
    qed
    from False obtain domain data obj where *: "(domain, data) \<in> set attack_data"
      "obj \<in> set (get_list (objects data))" "o_type obj = Some ''attack-pattern''"
      "\<not> (\<forall>phase \<in> set (get_list (o_kill_chain_phases obj)). phase_name phase \<noteq> None)"
      by blast
    from bad [OF this] *(1-3) have some: "\<exists>(domain, data) \<in> set attack_data.
           \<exists>obj \<in> set (get_list (objects data)).
           o_type obj = Some ''attack-pattern'' \<and>
           technique_of_object domain obj = Inl (KeyError ''phase_name'')"
      by blast
    from technique_domains_error [OF all some, of "[]"] False show ?thesis
      by (simp add: parse_attack_techniques_def)
  qed
qed

text \<open>The two inputs: the first raises; in the second the mitigation and the object
  without type are left out and the two attack-pattern objects are returned.\<close>

theorem C6_malformed_record_aborts_parse_witness:
  "parse_attack_techniques malformed_input = Inl (KeyError ''phase_name'')
   \<and> parse_attack_techniques well_formed_input =
       Inr [\<lparr>t_id = '''', t_name = ''B'', t_description = '''',
              t_domain = ''attack_enterprise'', t_tactics = [], t_stix_id = '''',
              t_created = '''', t_modified = '''', t_external_references = []\<rparr>,
            \<lparr>t_id = '''', t_name = ''C'', t_description = '''',
              t_domain = ''attack_enterprise'', t_tactics = [''initial-access''],
              t_stix_id = '''', t_created = '''', t_modified = '''',
              t_external_references = []\<rparr>]"
proof -
  have bad: "\<forall>(domain, data) \<in> set malformed_input. \<forall>obj \<in> set (get_list (objects data)).
             o_type obj = Some ''attack-pattern'' \<longrightarrow> o_external_references obj \<noteq> Some []"
    by (simp add: malformed_input_def normalizer_defs new_object_def stix_bundle_def
        unnamed_phase_def)
  have good: "\<forall>(domain, data) \<in> set well_formed_input. \<forall>obj \<in> set (get_list (objects data)).
             o_type obj = Some ''attack-pattern'' \<longrightarrow> o_external_references obj \<noteq> Some []"
    by (simp add: well_formed_input_def normalizer_defs new_object_def stix_bundle_def)
  from C6_malformed_record_aborts_parse [OF bad]
  have "parse_attack_techniques malformed_input = Inl (KeyError ''phase_name'')"
    by (simp add: malformed_input_def normalizer_defs new_object_def stix_bundle_def
        unnamed_phase_def)
  moreover from C6_malformed_record_aborts_parse [OF good]
  have "\<exists>techniques. parse_attack_techniques well_formed_input = Inr techniques \<and>
          map Inr techniques =
            [technique_of_object ''attack_enterprise'' (new_object ''attack-pattern'' ''B''),
             technique_of_object ''attack_enterprise''
               ((new_object ''attack-pattern'' ''C'')
                  \<lparr>o_kill_chain_phases :=
                     Some [\<lparr>kill_chain_name = Some ''mitre-attack'',
                            phase_name = Some ''initial-access''\<rparr>]\<rparr>)]"
    by (simp add: well_formed_input_def get_list_def new_object_def stix_bundle_def)
  then have "parse_attack_techniques well_formed_input =
       Inr [\<lparr>t_id = '''', t_name = ''B'', t_description = '''',
              t_domain = ''attack_enterprise'', t_tactics = [], t_stix_id = '''',
              t_created = '''', t_modified = '''', t_external_references = []\<rparr>,
            \<lparr>t_id = '''', t_name = ''C'', t_description = '''',
              t_domain = ''attack_enterprise'', t_tactics = [''initial-access''],
              t_stix_id = '''', t_created = '''', t_modified = '''',
              t_external_references = []\<rparr>]"
    by (auto simp: normalizer_defs new_object_def)
  ultimately show ?thesis by blast
qed

section \<open>Facts about the run\<close>

lemma download_all_failed:
  assumes "\<forall>attempt<3. \<exists>e. resp attempt = Request_failed e"
  shows "\<exists>e. snd (download_with_retry resp url 3) = Inl e"
proof -
  from assms obtain e0 e1 e2 where
    "resp 0 = Request_failed e0" "resp (Suc 0) = Request_failed e1"
    "resp (Suc (Suc 0)) = Request_failed e2"
    by (metis Suc_lessI lessI numeral_3_eq_3 zero_less_Suc less_Suc_eq)
  moreover have "[0..<nat 3] = [0, Suc 0, Suc (Suc 0)]"
    by (simp add: upt_rec)
  ultimately show ?thesis
    by (simp add: download_with_retry_def)
qed

lemma fetch_attack_sources_iff:
  "(domain, data) \<in> set (fetch_attack_sources w srcs acc) \<longleftrightarrow>
     (domain, data) \<in> set acc \<or>
     sublist ''attack'' domain \<and>
     (\<exists>url. (domain, url) \<in> set srcs \<and>
        snd (download_with_retry (net w url) url 3) = Inr (Some data))"
proof (induction srcs arbitrary: acc)
  case Nil
  show ?case by simp
next
  case (Cons src rest)
  obtain d u where src: "src = (d, u)" by (cases src)
  define r where "r = snd (download_with_retry (net w u) u 3)"
  consider (skip) "\<not> sublist ''attack'' d"
    | (failed) "sublist ''attack'' d" "\<forall>doc. r \<noteq> Inr (Some doc)"
    | (ok) doc where "sublist ''attack'' d" "r = Inr (Some doc)"
    by blast
  then show ?case
  proof cases
    case skip
    then have "fetch_attack_sources w (src # rest) acc = fetch_attack_sources w rest acc"
      by (simp add: src)
    with Cons.IH [of acc] skip show ?thesis
      unfolding src by auto
  next
    case failed
    then have "fetch_attack_sources w (src # rest) acc = fetch_attack_sources w rest acc"
      unfolding src r_def by (simp split: sum.splits option.splits)
    with Cons.IH [of acc] failed show ?thesis
      unfolding src r_def by auto
  next
    case ok
    then have "fetch_attack_sources w (src # rest) acc =
        fetch_attack_sources w rest (acc @ [(d, doc)])"
      unfolding src r_def by simp
    with Cons.IH [of "acc @ [(d, doc)]"] ok show ?thesis
      unfolding src r_def by auto
  qed
qed

lemma fetch_attack_data_iff:
  "(domain, data) \<in> set (fetch_attack_data w) \<longleftrightarrow>
     sublist ''attack'' domain \<and>
     (\<exists>url. (domain, url) \<in> set sources \<and>
        snd (download_with_retry (net w url) url 3) = Inr (Some data))"
  unfolding fetch_attack_data_def fetch_attack_sources_iff by simp

lemma sources_functional:
  "(name, url) \<in> set sources \<Longrightarrow> map_of sources name = Some url"
  by (auto simp: sources_def)

lemma technique_of_object_domain:
  "technique_of_object domain obj = Inr t \<Longrightarrow> t_domain t = domain"
  by (auto simp: technique_of_object_def split: sum.splits)

lemma mitigation_of_object_domain:
  "mitigation_of_object domain obj = Inr m \<Longrightarrow> m_domain m = domain"
  by (auto simp: mitigation_of_object_def split: sum.splits)

lemma technique_objects_Inr:
  "technique_objects domain objs acc = Inr r \<Longrightarrow>
     \<exists>ts. r = acc @ ts \<and>
       map Inr ts = map (technique_of_object domain)
                      (filter (\<lambda>obj. o_type obj = Some ''attack-pattern'') objs)"
proof (induction objs arbitrary: acc)
  case Nil
  then show ?case by simp
next
  case (Cons obj rest)
  show ?case
  proof (cases "o_type obj = Some ''attack-pattern''")
    case True
    with Cons.prems obtain t where t: "technique_of_object domain obj = Inr t"
      and run: "technique_objects domain rest (acc @ [t]) = Inr r"
      by (auto split: sum.splits)
    from Cons.IH [OF run] obtain ts where "r = (acc @ [t]) @ ts"
      "map Inr ts = map (technique_of_object domain)
                      (filter (\<lambda>obj. o_type obj = Some ''attack-pattern'') rest)"
      by blast
    with True t show ?thesis
      by (intro exI [of _ "t # ts"]) simp
  next
    case False
    with Cons show ?thesis by simp
  qed
qed

lemma technique_domains_Inr:
  "technique_domains attack_data acc = Inr r \<Longrightarrow>
     \<exists>ts. r = acc @ ts \<and>
       map Inr ts =
         concat (map (\<lambda>(domain, data).
                    map (technique_of_object domain)
                      (filter (\<lambda>obj. o_type obj = Some ''attack-pattern'')
                         (get_list (objects data))))
                  attack_data)"
proof (induction attack_data arbitrary: acc)
  case Nil
  then show ?case by simp
next
  case (Cons entry rest)
  obtain domain data where entry: "entry = (domain, data)" by (cases entry)
  from Cons.prems obtain mid where
    mid: "technique_objects domain (get_list (objects data)) acc = Inr mid"
    and run: "technique_domains rest mid = Inr r"
    unfolding entry technique_domains_Cons by (auto split: sum.splits)
  from technique_objects_Inr [OF mid] obtain ts1 where ts1: "mid = acc @ ts1"
    "map Inr ts1 = map (technique_of_object domain)
                     (filter (\<lambda>obj. o_type obj = Some ''attack-pattern'')
                        (get_list (objects data)))"
    by blast
  from Cons.IH [OF run] obtain ts2 where ts2: "r = mid @ ts2"
    "map Inr ts2 =
       concat (map (\<lambda>(domain, data).
                  map (technique_of_object domain)
                    (filter (\<lambda>obj. o_type obj = Some ''attack-pattern'')
                       (get_list (objects data))))
                rest)"
    by blast
  show ?case
    using ts1 ts2 unfolding entry by (intro exI [of _ "ts1 @ ts2"]) simp
qed

lemma parse_attack_techniques_Inr:
  assumes "parse_attack_techniques attack_data = Inr techniques"
  shows "map Inr techniques =
           concat (map (\<lambda>(domain, data).
                      map (technique_of_object domain)
                        (filter (\<lambda>obj. o_type obj = Some ''attack-pattern'')
                           (get_list (objects data))))
                    attack_data)"
  using technique_domains_Inr [of attack_data "[]" techniques] assms
  by (auto simp: parse_attack_techniques_def)

lemma mitigation_objects_Inr:
  "mitigation_objects domain objs acc = Inr r \<Longrightarrow>
     \<exists>ms. r = acc @ ms \<and>
       map Inr ms = map (mitigation_of_object domain)
                      (filter (\<lambda>obj. o_type obj = Some ''course-of-action'') objs)"
proof (induction objs arbitrary: acc)
  case Nil
  then show ?case by simp
next
  case (Cons obj rest)
  show ?case
  proof (cases "o_type obj = Some ''course-of-action''")
    case True
    with Cons.prems obtain m where m: "mitigation_of_object domain obj = Inr m"
      and run: "mitigation_objects domain rest (acc @ [m]) = Inr r"
      by (auto split: sum.splits)
    from Cons.IH [OF run] obtain ms where "r = (acc @ [m]) @ ms"
      "map Inr ms = map (mitigation_of_object domain)
                      (filter (\<lambda>obj. o_type obj = Some ''course-of-action'') rest)"
      by blast
    with True m show ?thesis
      by (intro exI [of _ "m # ms"]) simp
  next
    case False
    with Cons show ?thesis by simp
  qed
qed

lemma mitigation_domains_Cons:
  "mitigation_domains ((domain, data) # rest) acc =
     (case mitigation_objects domain (get_list (objects data)) acc of
        Inl e \<Rightarrow> Inl e
      | Inr acc' \<Rightarrow> mitigation_domains rest acc')"
  by (simp add: get_list_def split: option.splits)

lemma mitigation_domains_Inr:
  "mitigation_domains attack_data acc = Inr r \<Longrightarrow>
     \<exists>ms. r = acc @ ms \<and>
       map Inr ms =
         concat (map (\<lambda>(domain, data).
                    map (mitigation_of_object domain)
                      (filter (\<lambda>obj. o_type obj = Some ''course-of-action'')
                         (get_list (objects data))))
                  attack_data)"
proof (induction attack_data arbitrary: acc)
  case Nil
  then show ?case by simp
next
  case (Cons entry rest)
  obtain domain data where entry: "entry = (domain, data)" by (cases entry)
  from Cons.prems obtain mid where
    mid: "mitigation_objects domain (get_list (objects data)) acc = Inr mid"
    and run: "mitigation_domains rest mid = Inr r"
    unfolding entry mitigation_domains_Cons by (auto split: sum.splits)
  from mitigation_objects_Inr [OF mid] obtain ms1 where ms1: "mid = acc @ ms1"
    "map Inr ms1 = map (mitigation_of_object domain)
                     (filter (\<lambda>obj. o_type obj = Some ''course-of-action'')
                        (get_list (objects data)))"
    by blast
  from Cons.IH [OF run] obtain ms2 where ms2: "r = mid @ ms2"
    "map Inr ms2 =
       concat (map (\<lambda>(domain, data).
                  map (mitigation_of_object domain)
                    (filter (\<lambda>obj. o_type obj = Some ''course-of-action'')
                       (get_list (objects data))))
                rest)"
    by blast
  show ?case
    using ms1 ms2 unfolding entry by (intro exI [of _ "ms1 @ ms2"]) simp
qed

lemma parse_attack_mitigations_Inr:
  assumes "parse_attack_mitigations attack_data = Inr mitigations"
  shows "map Inr mitigations =
           concat (map (\<lambda>(domain, data).
                      map (mitigation_of_object domain)
                        (filter (\<lambda>obj. o_type obj = Some ''course-of-action'')
                           (get_list (objects data))))
                    attack_data)"
  using mitigation_domains_Inr [of attack_data "[]" mitigations] assms
  by (auto simp: parse_attack_mitigations_def)

text \<open>A normalized record carries the name of the source it came from.\<close>

lemma technique_domain_in_data:
  assumes "parse_attack_techniques attack_data = Inr techniques" and "t \<in> set techniques"
  shows "t_domain t \<in> fst ` set attack_data"
proof -
  from assms(2) have "Inr t \<in> set (map Inr techniques :: (py_error + technique) list)"
    by simp
  then obtain domain data obj where "(domain, data) \<in> set attack_data"
    "technique_of_object domain obj = Inr t"
    unfolding parse_attack_techniques_Inr [OF assms(1)] by auto
  then show ?thesis
    by (force dest: technique_of_object_domain)
qed

lemma mitigation_domain_in_data:
  assumes "parse_attack_mitigations attack_data = Inr mitigations" and "m \<in> set mitigations"
  shows "m_domain m \<in> fst ` set attack_data"
proof -
  from assms(2) have "Inr m \<in> set (map Inr mitigations :: (py_error + mitigation) list)"
    by simp
  then obtain domain data obj where "(domain, data) \<in> set attack_data"
    "mitigation_of_object domain obj = Inr m"
    unfolding parse_attack_mitigations_Inr [OF assms(1)] by auto
  then show ?thesis
    by (force dest: mitigation_of_object_domain)
qed

lemma run_result:
  assumes "parse_attack_techniques (fetch_attack_data w) = Inr techniques"
    and "parse_attack_mitigations (fetch_attack_data w) = Inr mitigations"
    and "writable w (output_dir @ ''/consolidated_mapping.json'')"
  shows "generate_consolidated_mapping output_dir w =
           Inr (build_consolidated (now w) techniques mitigations
                  (parse_capec_patterns (fetch_capec_data output_dir w))
                  (fetch_d3fend_data output_dir w))"
  using assms by (simp add: generate_consolidated_mapping_def Let_def)

lemma run_Inr:
  assumes "generate_consolidated_mapping output_dir w = Inr c"
  shows "\<exists>techniques mitigations.
           parse_attack_techniques (fetch_attack_data w) = Inr techniques \<and>
           parse_attack_mitigations (fetch_attack_data w) = Inr mitigations \<and>
           writable w (output_dir @ ''/consolidated_mapping.json'') \<and>
           c = build_consolidated (now w) techniques mitigations
                 (parse_capec_patterns (fetch_capec_data output_dir w))
                 (fetch_d3fend_data output_dir w)"
  using assms
  by (auto simp: generate_consolidated_mapping_def Let_def split: sum.splits if_splits)

lemma failed_source_not_fetched:
  assumes "(source, url) \<in> set sources"
    and "snd (download_with_retry (net w url) url 3) = Inl e"
  shows "source \<notin> fst ` set (fetch_attack_data w)"
proof
  assume "source \<in> fst ` set (fetch_attack_data w)"
  then obtain data where "(source, data) \<in> set (fetch_attack_data w)" by auto
  then obtain url' where "(source, url') \<in> set sources"
    and ok: "snd (download_with_retry (net w url') url' 3) = Inr (Some data)"
    unfolding fetch_attack_data_iff by blast
  with assms(1) have "url' = url"
    by (auto dest!: sources_functional)
  with ok assms(2) show False by simp
qed

lemma fetch_capec_data_failed:
  assumes "(''capec_stix'', url) \<in> set sources"
    and "snd (download_with_retry (net w url) url 3) = Inl e"
  shows "fetch_capec_data output_dir w = empty_document"
  using assms(2) sources_functional [OF assms(1)] by (simp add: fetch_capec_data_def)

lemma fetch_capec_data_ok:
  assumes "(''capec_stix'', url) \<in> set sources"
    and "snd (download_with_retry (net w url) url 3) = Inr (Some doc)"
    and "writable w (output_dir @ ''/capec_raw.json'')"
  shows "fetch_capec_data output_dir w = doc"
  using assms(2,3) sources_functional [OF assms(1)] by (simp add: fetch_capec_data_def)

lemma fetch_d3fend_data_failed:
  assumes "(''d3fend_base'', url) \<in> set sources"
    and "snd (download_with_retry (net w url) url 3) = Inl e"
  shows "fetch_d3fend_data output_dir w = empty_document"
  using assms(2) sources_functional [OF assms(1)] by (simp add: fetch_d3fend_data_def)

lemma fetch_d3fend_data_ok:
  assumes "(''d3fend_base'', url) \<in> set sources"
    and "snd (download_with_retry (net w url) url 3) = Inr (Some doc)"
    and "writable w (output_dir @ ''/d3fend_raw.json'')"
  shows "fetch_d3fend_data output_dir w = doc"
  using assms(2,3) sources_functional [OF assms(1)] by (simp add: fetch_d3fend_data_def)

lemma build_consolidated_fields:
  "stride_mapping (build_consolidated time techniques mitigations patterns d3fend_data) =
     create_stride_mapping_with_real_data stride_capec_mappings techniques patterns"
  "data_sources (metadata (build_consolidated time techniques mitigations patterns d3fend_data)) =
     \<lparr>attack_techniques_count = length techniques,
      attack_mitigations_count = length mitigations,
      capec_patterns_count = length patterns,
      d3fend_available = truthy d3fend_data,
      stride_categories = length stride_capec_mappings\<rparr>"
  "sample_data (build_consolidated time techniques mitigations patterns d3fend_data) =
     \<lparr>sample_attack_techniques = take 10 techniques,
      sample_attack_mitigations = take 10 mitigations,
      sample_capec_patterns = take 10 patterns\<rparr>"
  by (simp_all add: build_consolidated_def Let_def)

text \<open>What the document of a run holds when one source failed all its attempts.\<close>

lemma run_with_failed_source:
  assumes "(source, url) \<in> set sources"
    and "\<forall>attempt<3. \<exists>e. net w url attempt = Request_failed e"
    and "parse_attack_techniques (fetch_attack_data w) = Inr techniques"
    and "parse_attack_mitigations (fetch_attack_data w) = Inr mitigations"
    and "writable w (output_dir @ ''/consolidated_mapping.json'')"
  shows "let patterns = parse_capec_patterns (fetch_capec_data output_dir w);
             c = build_consolidated (now w) techniques mitigations patterns
                   (fetch_d3fend_data output_dir w)
         in generate_consolidated_mapping output_dir w = Inr c
          \<and> stride_mapping c =
              create_stride_mapping_with_real_data stride_capec_mappings techniques patterns
          \<and> attack_techniques_count (data_sources (metadata c)) = length techniques
          \<and> attack_mitigations_count (data_sources (metadata c)) = length mitigations
          \<and> capec_patterns_count (data_sources (metadata c)) = length patterns
          \<and> map Inr techniques =
              concat (map (\<lambda>(domain, data).
                         map (technique_of_object domain)
                           (filter (\<lambda>obj. o_type obj = Some ''attack-pattern'')
                              (get_list (objects data))))
                       (fetch_attack_data w))
          \<and> map Inr mitigations =
              concat (map (\<lambda>(domain, data).
                         map (mitigation_of_object domain)
                           (filter (\<lambda>obj. o_type obj = Some ''course-of-action'')
                              (get_list (objects data))))
                       (fetch_attack_data w))
          \<and> source \<notin> fst ` set (fetch_attack_data w)
          \<and> (\<forall>t \<in> set techniques. t_domain t \<noteq> source)
          \<and> (\<forall>m \<in> set mitigations. m_domain m \<noteq> source)
          \<and> (source = ''capec_stix'' \<longrightarrow>
                patterns = [] \<and> capec_patterns_count (data_sources (metadata c)) = 0)
          \<and> (source = ''d3fend_base'' \<longrightarrow> \<not> d3fend_available (data_sources (metadata c)))
          \<and> (\<forall>(other, url') \<in> set sources. \<forall>doc.
                other \<noteq> source \<and>
                snd (download_with_retry (net w url') url' 3) = Inr (Some doc) \<longrightarrow>
                (sublist ''attack'' other \<longrightarrow> (other, doc) \<in> set (fetch_attack_data w)) \<and>
                (other = ''capec_stix'' \<and> writable w (output_dir @ ''/capec_raw.json'') \<longrightarrow>
                   fetch_capec_data output_dir w = doc) \<and>
                (other = ''d3fend_base'' \<and> writable w (output_dir @ ''/d3fend_raw.json'') \<longrightarrow>
                   fetch_d3fend_data output_dir w = doc))"
proof -
  define patterns where "patterns = parse_capec_patterns (fetch_capec_data output_dir w)"
  define c where "c = build_consolidated (now w) techniques mitigations patterns
                   (fetch_d3fend_data output_dir w)"
  from download_all_failed [OF assms(2)] obtain e where
    failed: "snd (download_with_retry (net w url) url 3) = Inl e" ..
  have run: "generate_consolidated_mapping output_dir w = Inr c"
    unfolding c_def patterns_def by (rule run_result [OF assms(3,4,5)])
  have mapping: "stride_mapping c =
      create_stride_mapping_with_real_data stride_capec_mappings techniques patterns"
    and counts: "attack_techniques_count (data_sources (metadata c)) = length techniques"
      "attack_mitigations_count (data_sources (metadata c)) = length mitigations"
      "capec_patterns_count (data_sources (metadata c)) = length patterns"
    and flag: "d3fend_available (data_sources (metadata c)) =
      truthy (fetch_d3fend_data output_dir w)"
    unfolding c_def by (simp_all add: build_consolidated_fields)
  note all_techniques = parse_attack_techniques_Inr [OF assms(3)]
  note all_mitigations = parse_attack_mitigations_Inr [OF assms(4)]
  have absent: "source \<notin> fst ` set (fetch_attack_data w)"
    by (rule failed_source_not_fetched [OF assms(1) failed])
  have no_technique: "\<forall>t \<in> set techniques. t_domain t \<noteq> source"
    using technique_domain_in_data [OF assms(3)] absent by blast
  have no_mitigation: "\<forall>m \<in> set mitigations. m_domain m \<noteq> source"
    using mitigation_domain_in_data [OF assms(4)] absent by blast
  have capec: "patterns = [] \<and> capec_patterns_count (data_sources (metadata c)) = 0"
    if "source = ''capec_stix''"
  proof -
    from that assms(1) have "(''capec_stix'', url) \<in> set sources" by simp
    from fetch_capec_data_failed [OF this failed]
    have "patterns = []"
      by (simp add: patterns_def parse_capec_patterns_def empty_document_def)
    with counts(3) show ?thesis by simp
  qed
  have d3fend: "\<not> d3fend_available (data_sources (metadata c))"
    if "source = ''d3fend_base''"
  proof -
    from that assms(1) have "(''d3fend_base'', url) \<in> set sources" by simp
    from fetch_d3fend_data_failed [OF this failed] flag show ?thesis
      by (simp add: truthy_def empty_document_def)
  qed
  have others: "\<forall>(other, url') \<in> set sources. \<forall>doc.
                other \<noteq> source \<and>
                snd (download_with_retry (net w url') url' 3) = Inr (Some doc) \<longrightarrow>
                (sublist ''attack'' other \<longrightarrow> (other, doc) \<in> set (fetch_attack_data w)) \<and>
                (other = ''capec_stix'' \<and> writable w (output_dir @ ''/capec_raw.json'') \<longrightarrow>
                   fetch_capec_data output_dir w = doc) \<and>
                (other = ''d3fend_base'' \<and> writable w (output_dir @ ''/d3fend_raw.json'') \<longrightarrow>
                   fetch_d3fend_data output_dir w = doc)"
  proof (intro ballI, clarify, intro conjI impI)
    fix other url' doc
    assume src: "(other, url') \<in> set sources"
      and ok: "snd (download_with_retry (net w url') url' 3) = Inr (Some doc)"
    show "(other, doc) \<in> set (fetch_attack_data w)" if "sublist ''attack'' other"
      unfolding fetch_attack_data_iff using that src ok by blast
    show "fetch_capec_data output_dir w = doc"
      if "other = ''capec_stix'' \<and> writable w (output_dir @ ''/capec_raw.json'')"
      using fetch_capec_data_ok [of url' w doc output_dir] that src ok by simp
    show "fetch_d3fend_data output_dir w = doc"
      if "other = ''d3fend_base'' \<and> writable w (output_dir @ ''/d3fend_raw.json'')"
      using fetch_d3fend_data_ok [of url' w doc output_dir] that src ok by simp
  qed
  from run mapping counts all_techniques all_mitigations absent no_technique no_mitigation
    capec d3fend others
  show ?thesis
    unfolding Let_def c_def [symmetric] patterns_def [symmetric] by blast
qed

text \<open>A source is known by its name and by its URL alike.\<close>

lemma sources_keyed:
  "(source, url) \<in> set sources \<Longrightarrow> (d, u) \<in> set sources \<Longrightarrow> d = source \<longleftrightarrow> u = url"
  by (auto simp: sources_def)

text \<open>
  Two worlds that differ at one URL only, where the second fails every attempt: the
  second fetches from the ATT&CK sources what the first fetches, without the domain of
  that URL.
\<close>

lemma fetch_attack_sources_without:
  assumes "\<forall>(d, u) \<in> set srcs. d = source \<longleftrightarrow> u = url"
    and "\<forall>u. u \<noteq> url \<longrightarrow> net w' u = net w u"
    and "snd (download_with_retry (net w' url) url 3) = Inl e"
  shows "fetch_attack_sources w' srcs (filter (\<lambda>(d, data). d \<noteq> source) acc) =
           filter (\<lambda>(d, data). d \<noteq> source) (fetch_attack_sources w srcs acc)"
  using assms(1)
proof (induction srcs arbitrary: acc)
  case Nil
  show ?case by simp
next
  case (Cons src rest)
  obtain d u where src: "src = (d, u)" by (cases src)
  from Cons.prems have rest: "\<forall>(d, u) \<in> set rest. d = source \<longleftrightarrow> u = url"
    and here: "d = source \<longleftrightarrow> u = url"
    by (simp_all add: src)
  note IH = Cons.IH [OF rest]
  define r where "r = snd (download_with_retry (net w u) u 3)"
  define r' where "r' = snd (download_with_retry (net w' u) u 3)"
  show ?case
  proof (cases "sublist ''attack'' d")
    case False
    then show ?thesis using IH [of acc] by (simp add: src)
  next
    case True
    show ?thesis
    proof (cases "d = source")
      case same: True
      with here have "u = url" by simp
      with assms(3) have skip': "fetch_attack_sources w' (src # rest) acc' =
          fetch_attack_sources w' rest acc'" for acc'
        by (simp add: src True)
      show ?thesis
      proof (cases "\<exists>data. r = Inr (Some data)")
        case True
        then obtain data where "r = Inr (Some data)" ..
        then have "fetch_attack_sources w (src # rest) acc =
            fetch_attack_sources w rest (acc @ [(d, data)])"
          using \<open>sublist ''attack'' d\<close> by (simp add: src r_def)
        with IH [of "acc @ [(d, data)]"] same skip' show ?thesis by simp
      next
        case False
        then have "fetch_attack_sources w (src # rest) acc = fetch_attack_sources w rest acc"
          using \<open>sublist ''attack'' d\<close>
          by (simp add: src r_def split: sum.splits option.splits)
        with IH [of acc] skip' show ?thesis by simp
      qed
    next
      case other: False
      with here have "u \<noteq> url" by simp
      with assms(2) have eq: "r' = r" by (simp add: r_def r'_def)
      show ?thesis
      proof (cases "\<exists>data. r = Inr (Some data)")
        case True
        then obtain data where data: "r = Inr (Some data)" ..
        then have "fetch_attack_sources w (src # rest) acc =
            fetch_attack_sources w rest (acc @ [(d, data)])"
          using \<open>sublist ''attack'' d\<close> by (simp add: src r_def)
        moreover from data eq have "fetch_attack_sources w' (src # rest) acc' =
            fetch_attack_sources w' rest (acc' @ [(d, data)])" for acc'
          using \<open>sublist ''attack'' d\<close> by (simp add: src r'_def)
        ultimately show ?thesis using IH [of "acc @ [(d, data)]"] other by simp
      next
        case False
        then have "fetch_attack_sources w (src # rest) acc = fetch_attack_sources w rest acc"
          using \<open>sublist ''attack'' d\<close>
          by (simp add: src r_def split: sum.splits option.splits)
        moreover from False eq have "fetch_attack_sources w' (src # rest) acc' =
            fetch_attack_sources w' rest acc'" for acc'
          using \<open>sublist ''attack'' d\<close>
          by (simp add: src r'_def split: sum.splits option.splits)
        ultimately show ?thesis using IH [of acc] by simp
      qed
    qed
  qed
qed

lemma fetch_attack_data_without:
  assumes "(source, url) \<in> set sources"
    and "\<forall>u. u \<noteq> url \<longrightarrow> net w' u = net w u"
    and "snd (download_with_retry (net w' url) url 3) = Inl e"
  shows "fetch_attack_data w' =
           filter (\<lambda>(d, data). d \<noteq> source) (fetch_attack_data w)"
proof -
  have "\<forall>(d, u) \<in> set sources. d = source \<longleftrightarrow> u = url"
    using sources_keyed [OF assms(1)] by blast
  from fetch_attack_sources_without [OF this assms(2,3), of "[]"]
  show ?thesis by (simp add: fetch_attack_data_def)
qed

lemma fetch_capec_data_same:
  assumes "(source, url) \<in> set sources" and "source \<noteq> ''capec_stix''"
    and "\<forall>u. u \<noteq> url \<longrightarrow> net w' u = net w u"
    and "writable w' = writable w"
  shows "fetch_capec_data output_dir w' = fetch_capec_data output_dir w"
proof (cases "map_of sources ''capec_stix''")
  case None
  then show ?thesis by (simp add: fetch_capec_data_def)
next
  case (Some u)
  then have "(''capec_stix'', u) \<in> set sources" by (rule map_of_SomeD)
  with sources_keyed [OF assms(1) this] assms(2) have "u \<noteq> url" by simp
  with assms(3) have "net w' u = net w u" by simp
  moreover from assms(4) have "writable w' (output_dir @ ''/capec_raw.json'') =
      writable w (output_dir @ ''/capec_raw.json'')"
    by (rule arg_cong [where f = "\<lambda>g. g (output_dir @ ''/capec_raw.json'')"])
  ultimately show ?thesis using Some
    by (simp add: fetch_capec_data_def split: sum.splits option.splits)
qed

lemma fetch_d3fend_data_same:
  assumes "(source, url) \<in> set sources" and "source \<noteq> ''d3fend_base''"
    and "\<forall>u. u \<noteq> url \<longrightarrow> net w' u = net w u"
    and "writable w' = writable w"
  shows "fetch_d3fend_data output_dir w' = fetch_d3fend_data output_dir w"
proof (cases "map_of sources ''d3fend_base''")
  case None
  then show ?thesis by (simp add: fetch_d3fend_data_def)
next
  case (Some u)
  then have "(''d3fend_base'', u) \<in> set sources" by (rule map_of_SomeD)
  with sources_keyed [OF assms(1) this] assms(2) have "u \<noteq> url" by simp
  with assms(3) have "net w' u = net w u" by simp
  moreover from assms(4) have "writable w' (output_dir @ ''/d3fend_raw.json'') =
      writable w (output_dir @ ''/d3fend_raw.json'')"
    by (rule arg_cong [where f = "\<lambda>g. g (output_dir @ ''/d3fend_raw.json'')"])
  ultimately show ?thesis using Some
    by (simp add: fetch_d3fend_data_def split: sum.splits option.splits)
qed

text \<open>A parser that accepts a list of documents accepts the list without some of them.\<close>

lemma parse_attack_techniques_filter:
  assumes "parse_attack_techniques attack_data = Inr ts"
  shows "\<exists>ts'. parse_attack_techniques (filter P attack_data) = Inr ts'"
proof -
  have "\<forall>(domain, data) \<in> set (filter P attack_data). \<forall>obj \<in> set (get_list (objects data)).
             o_type obj = Some ''attack-pattern'' \<longrightarrow>
             (\<exists>t. technique_of_object domain obj = Inr t)"
  proof (intro ballI, clarify)
    fix domain data obj
    assume "(domain, data) \<in> set (filter P attack_data)"
      "obj \<in> set (get_list (objects data))" "o_type obj = Some ''attack-pattern''"
    then have "technique_of_object domain obj \<in>
        set (concat (map (\<lambda>(domain, data).
                      map (technique_of_object domain)
                        (filter (\<lambda>obj. o_type obj = Some ''attack-pattern'')
                           (get_list (objects data))))
                    attack_data))"
      by force
    then have "technique_of_object domain obj \<in> set (map Inr ts)"
      by (simp only: parse_attack_techniques_Inr [OF assms])
    then show "\<exists>t. technique_of_object domain obj = Inr t" by auto
  qed
  from technique_domains_ok [OF this, of "[]"] show ?thesis
    by (auto simp: parse_attack_techniques_def)
qed

lemma mitigation_objects_ok:
  assumes "\<forall>obj \<in> set objs. o_type obj = Some ''course-of-action'' \<longrightarrow>
             (\<exists>m. mitigation_of_object domain obj = Inr m)"
  shows "\<exists>ms. mitigation_objects domain objs acc = Inr (acc @ ms)"
  using assms
proof (induction objs arbitrary: acc)
  case Nil
  then show ?case by simp
next
  case (Cons obj rest)
  then have rest: "\<forall>obj \<in> set rest. o_type obj = Some ''course-of-action'' \<longrightarrow>
             (\<exists>m. mitigation_of_object domain obj = Inr m)"
    by simp
  show ?case
  proof (cases "o_type obj = Some ''course-of-action''")
    case True
    with Cons.prems obtain m where m: "mitigation_of_object domain obj = Inr m" by auto
    from Cons.IH [OF rest, of "acc @ [m]"] obtain ms where
      "mitigation_objects domain rest (acc @ [m]) = Inr ((acc @ [m]) @ ms)"
      by blast
    with True m show ?thesis
      by (intro exI [of _ "m # ms"]) simp
  next
    case False
    with Cons.IH [OF rest, of acc] show ?thesis by simp
  qed
qed

lemma mitigation_domains_ok:
  assumes "\<forall>(domain, data) \<in> set attack_data. \<forall>obj \<in> set (get_list (objects data)).
             o_type obj = Some ''course-of-action'' \<longrightarrow>
             (\<exists>m. mitigation_of_object domain obj = Inr m)"
  shows "\<exists>ms. mitigation_domains attack_data acc = Inr (acc @ ms)"
  using assms
proof (induction attack_data arbitrary: acc)
  case Nil
  then show ?case by simp
next
  case (Cons entry rest)
  obtain domain data where entry: "entry = (domain, data)" by (cases entry)
  from Cons.prems entry have "\<forall>obj \<in> set (get_list (objects data)).
             o_type obj = Some ''course-of-action'' \<longrightarrow>
             (\<exists>m. mitigation_of_object domain obj = Inr m)"
    by simp
  from mitigation_objects_ok [OF this, of acc] obtain ms1 where ms1:
    "mitigation_objects domain (get_list (objects data)) acc = Inr (acc @ ms1)"
    by blast
  from Cons.prems have "\<forall>(domain, data) \<in> set rest. \<forall>obj \<in> set (get_list (objects data)).
             o_type obj = Some ''course-of-action'' \<longrightarrow>
             (\<exists>m. mitigation_of_object domain obj = Inr m)"
    by simp
  from Cons.IH [OF this, of "acc @ ms1"] obtain ms2 where
    "mitigation_domains rest (acc @ ms1) = Inr ((acc @ ms1) @ ms2)"
    by blast
  with ms1 show ?case
    unfolding entry
    by (intro exI [of _ "ms1 @ ms2"])
      (simp add: mitigation_domains_Cons del: mitigation_domains.simps)
qed

lemma parse_attack_mitigations_filter:
  assumes "parse_attack_mitigations attack_data = Inr ms"
  shows "\<exists>ms'. parse_attack_mitigations (filter P attack_data) = Inr ms'"
proof -
  have "\<forall>(domain, data) \<in> set (filter P attack_data). \<forall>obj \<in> set (get_list (objects data)).
             o_type obj = Some ''course-of-action'' \<longrightarrow>
             (\<exists>m. mitigation_of_object domain obj = Inr m)"
  proof (intro ballI, clarify)
    fix domain data obj
    assume "(domain, data) \<in> set (filter P attack_data)"
      "obj \<in> set (get_list (objects data))" "o_type obj = Some ''course-of-action''"
    then have "mitigation_of_object domain obj \<in>
        set (concat (map (\<lambda>(domain, data).
                      map (mitigation_of_object domain)
                        (filter (\<lambda>obj. o_type obj = Some ''course-of-action'')
                           (get_list (objects data))))
                    attack_data))"
      by force
    then have "mitigation_of_object domain obj \<in> set (map Inr ms)"
      by (simp only: parse_attack_mitigations_Inr [OF assms])
    then show "\<exists>m. mitigation_of_object domain obj = Inr m" by auto
  qed
  from mitigation_domains_ok [OF this, of "[]"] show ?thesis
    by (auto simp: parse_attack_mitigations_def)
qed

text \<open>Evaluation of the fetch functions in the worlds \<open>answering\<close>.\<close>

lemma answering_download:
  "snd (download_with_retry (net (answering docs can_write) url) url 3) =
     (case map_of docs url of
        None \<Rightarrow> Inl (RequestException ''connection refused'')
      | Some objs \<Rightarrow> Inr (Some (stix_bundle objs)))"
proof -
  have three: "[0..<3] = [0, Suc 0, Suc (Suc 0)]"
    by (simp add: upt_rec)
  show ?thesis
    by (simp add: answering_def download_with_retry_def three split: option.splits)
qed

lemma answering_fields:
  "writable (answering docs can_write) = can_write"
  "now (answering docs can_write) = ''2025-08-18T12:00:00''"
  "net (answering docs can_write) url attempt =
     (case map_of docs url of
        None \<Rightarrow> Request_failed ''connection refused''
      | Some objs \<Rightarrow> Parsed (stix_bundle objs))"
  by (simp_all add: answering_def)

lemma url_of_sources:
  "url_of ''attack_enterprise'' =
     ''https://raw.githubusercontent.com/mitre-attack/attack-stix-data/master/enterprise-attack/enterprise-attack.json''"
  "url_of ''attack_mobile'' =
     ''https://raw.githubusercontent.com/mitre-attack/attack-stix-data/master/mobile-attack/mobile-attack.json''"
  "url_of ''capec_stix'' =
     ''https://raw.githubusercontent.com/mitre/cti/master/capec/2.1/stix-capec.json''"
  "url_of ''d3fend_base'' =
     ''https://d3fend.mitre.org/api/ontology/inference/d3fend-full-mappings.json''"
  by (simp_all add: url_of_def sources_def)

lemma answering_fetch_attack_data:
  "fetch_attack_data (answering [(url_of ''attack_enterprise'', objs)] can_write) =
     [(''attack_enterprise'', stix_bundle objs)]"
  "fetch_attack_data (answering [(url_of ''attack_enterprise'', objs),
       (url_of ''capec_stix'', objs')] can_write) =
     [(''attack_enterprise'', stix_bundle objs)]"
  "fetch_attack_data (answering [(url_of ''attack_enterprise'', objs),
       (url_of ''attack_mobile'', objs')] can_write) =
     [(''attack_enterprise'', stix_bundle objs), (''attack_mobile'', stix_bundle objs')]"
  by (simp_all add: fetch_attack_data_def sources_def answering_download url_of_sources
      sublist_Cons_right)

lemma answering_fetch_capec_data:
  "fetch_capec_data output_dir (answering [(url_of ''attack_enterprise'', objs)] can_write) =
     empty_document"
  "fetch_capec_data output_dir (answering [(url_of ''attack_enterprise'', objs),
       (url_of ''attack_mobile'', objs')] can_write) = empty_document"
  "fetch_capec_data output_dir (answering [(url_of ''attack_enterprise'', objs),
       (url_of ''capec_stix'', objs')] can_write) =
     (if can_write (output_dir @ ''/capec_raw.json'') then stix_bundle objs'
      else empty_document)"
  by (simp_all add: fetch_capec_data_def sources_def answering_download url_of_sources
      answering_fields(1))

lemma answering_fetch_d3fend_data:
  "fetch_d3fend_data output_dir (answering [(url_of ''attack_enterprise'', objs)] can_write) =
     empty_document"
  "fetch_d3fend_data output_dir (answering [(url_of ''attack_enterprise'', objs),
       (url_of ''attack_mobile'', objs')] can_write) = empty_document"
  "fetch_d3fend_data output_dir (answering [(url_of ''attack_enterprise'', objs),
       (url_of ''capec_stix'', objs')] can_write) = empty_document"
  by (simp_all add: fetch_d3fend_data_def sources_def answering_download url_of_sources)

lemma two_objects_parsed:
  "parse_attack_techniques [(''attack_enterprise'', stix_bundle two_objects)] =
     Inr [new_technique '''' ''Phishing'' '''']"
  "parse_attack_mitigations [(''attack_enterprise'', stix_bundle two_objects)] =
     Inr [user_training]"
  "parse_attack_techniques
     [(''attack_enterprise'', stix_bundle two_objects), (''attack_mobile'', stix_bundle [])] =
     Inr [new_technique '''' ''Phishing'' '''']"
  "parse_attack_mitigations
     [(''attack_enterprise'', stix_bundle two_objects), (''attack_mobile'', stix_bundle [])] =
     Inr [user_training]"
  by (simp_all add: two_objects_def normalizer_defs new_object_def stix_bundle_def
      new_technique_def user_training_def)

section \<open>Claims about the run\<close>

text \<open>
  Claim C7, as stated: when one source fails all its attempts the run still produces
  the consolidated document, the metadata records that the source was unavailable, and
  the data of all other sources is present. Three runs show otherwise. With the pattern
  catalog down and the consolidated file not writable, the run raises and returns no
  document. With D3FEND down and the pattern catalog answering, the patterns are absent
  from the document when the raw copy of the catalog cannot be saved. With the mobile
  catalog down, the run returns the very document that it returns when the mobile
  catalog answers with an empty bundle: nothing in it tells the two apart.
\<close>

theorem C7_counterexample:
  "net final_unwritable (url_of ''capec_stix'') 0 = Request_failed ''connection refused''
   \<and> net final_unwritable (url_of ''capec_stix'') 1 = Request_failed ''connection refused''
   \<and> net final_unwritable (url_of ''capec_stix'') 2 = Request_failed ''connection refused''
   \<and> generate_consolidated_mapping ''cybersec_data'' final_unwritable =
       Inl (OSError ''cybersec_data/consolidated_mapping.json'')
   \<and> net capec_unsaved (url_of ''d3fend_base'') 0 = Request_failed ''connection refused''
   \<and> net capec_unsaved (url_of ''d3fend_base'') 1 = Request_failed ''connection refused''
   \<and> net capec_unsaved (url_of ''d3fend_base'') 2 = Request_failed ''connection refused''
   \<and> net capec_unsaved (url_of ''capec_stix'') 0 = Parsed (stix_bundle [capec_object])
   \<and> map p_id (parse_capec_patterns (stix_bundle [capec_object])) = [''CAPEC-148'']
   \<and> generate_consolidated_mapping ''cybersec_data'' capec_unsaved =
       Inr (build_consolidated ''2025-08-18T12:00:00''
              [new_technique '''' ''Phishing'' ''''] [user_training] [] empty_document)
   \<and> net mobile_down (url_of ''attack_mobile'') 0 = Request_failed ''connection refused''
   \<and> net mobile_down (url_of ''attack_mobile'') 1 = Request_failed ''connection refused''
   \<and> net mobile_down (url_of ''attack_mobile'') 2 = Request_failed ''connection refused''
   \<and> net mobile_empty (url_of ''attack_mobile'') 0 = Parsed (stix_bundle [])
   \<and> generate_consolidated_mapping ''cybersec_data'' mobile_down =
       Inr (build_consolidated ''2025-08-18T12:00:00''
              [new_technique '''' ''Phishing'' ''''] [user_training] [] empty_document)
   \<and> generate_consolidated_mapping ''cybersec_data'' mobile_empty =
       generate_consolidated_mapping ''cybersec_data'' mobile_down"
proof -
  have patterns: "parse_capec_patterns empty_document = []"
    by (simp add: parse_capec_patterns_def empty_document_def)
  have nets: "net final_unwritable (url_of ''capec_stix'') n = Request_failed ''connection refused''"
    "net capec_unsaved (url_of ''d3fend_base'') n = Request_failed ''connection refused''"
    "net capec_unsaved (url_of ''capec_stix'') n = Parsed (stix_bundle [capec_object])"
    "net mobile_down (url_of ''attack_mobile'') n = Request_failed ''connection refused''"
    "net mobile_empty (url_of ''attack_mobile'') n = Parsed (stix_bundle [])" for n
    by (simp_all add: final_unwritable_def capec_unsaved_def mobile_down_def mobile_empty_def
        answering_fields url_of_sources)
  have ids: "map p_id (parse_capec_patterns (stix_bundle [capec_object])) = [''CAPEC-148'']"
    by (simp add: capec_object_def normalizer_defs new_object_def stix_bundle_def)
  have r1: "generate_consolidated_mapping ''cybersec_data'' final_unwritable =
       Inl (OSError ''cybersec_data/consolidated_mapping.json'')"
    by (simp add: generate_consolidated_mapping_def Let_def final_unwritable_def
        answering_fetch_attack_data two_objects_parsed answering_fields)
  have r2: "generate_consolidated_mapping ''cybersec_data'' capec_unsaved =
       Inr (build_consolidated ''2025-08-18T12:00:00''
              [new_technique '''' ''Phishing'' ''''] [user_training] [] empty_document)"
    by (simp add: generate_consolidated_mapping_def Let_def capec_unsaved_def
        answering_fetch_attack_data answering_fetch_capec_data answering_fetch_d3fend_data
        two_objects_parsed answering_fields patterns)
  have r3: "generate_consolidated_mapping ''cybersec_data'' mobile_down =
       Inr (build_consolidated ''2025-08-18T12:00:00''
              [new_technique '''' ''Phishing'' ''''] [user_training] [] empty_document)"
    by (simp add: generate_consolidated_mapping_def Let_def mobile_down_def
        answering_fetch_attack_data answering_fetch_capec_data answering_fetch_d3fend_data
        two_objects_parsed answering_fields patterns)
  have r4: "generate_consolidated_mapping ''cybersec_data'' mobile_empty =
       Inr (build_consolidated ''2025-08-18T12:00:00''
              [new_technique '''' ''Phishing'' ''''] [user_training] [] empty_document)"
    by (simp add: generate_consolidated_mapping_def Let_def mobile_empty_def
        answering_fetch_attack_data answering_fetch_capec_data answering_fetch_d3fend_data
        two_objects_parsed answering_fields patterns)
  from nets ids r1 r2 r3 r4 show ?thesis by simp
qed

text \<open>
  Claim C7, amended. Take a run that returns a document, and the run in which one
  source fails its three attempts with a request error while every other URL answers
  as before and the same files can be written. That run returns a document too. It
  fetches from the ATT&CK sources what the first run fetches, without the failed
  domain, and from the pattern catalog and from D3FEND what the first run fetches,
  unless that is the failed source. In its document the mapping is the correlation of
  the parsed techniques and patterns, the counts of the metadata are the lengths of the
  parsed lists, and the lists hold the normalized records of the fetched documents and
  no record of the failed source. When the failed source is the pattern catalog, the
  pattern list is empty and its count is 0; when it is D3FEND, the flag
  \<open>d3fend_available\<close> is false. The document of every other ATT&CK source whose
  download succeeded is among the fetched data, and that of the pattern catalog and of
  D3FEND when its raw copy could be saved as well.
\<close>

theorem C7_failed_source_leaves_rest:
  assumes "(source, url) \<in> set sources"
    and "\<forall>attempt<3. \<exists>e. net w' url attempt = Request_failed e"
    and "\<forall>u. u \<noteq> url \<longrightarrow> net w' u = net w u"
    and "writable w' = writable w"
    and "generate_consolidated_mapping output_dir w = Inr c"
  shows "\<exists>techniques mitigations.
           parse_attack_techniques (fetch_attack_data w') = Inr techniques
         \<and> parse_attack_mitigations (fetch_attack_data w') = Inr mitigations
         \<and> fetch_attack_data w' =
             filter (\<lambda>(domain, data). domain \<noteq> source) (fetch_attack_data w)
         \<and> (source \<noteq> ''capec_stix'' \<longrightarrow>
               fetch_capec_data output_dir w' = fetch_capec_data output_dir w)
         \<and> (source \<noteq> ''d3fend_base'' \<longrightarrow>
               fetch_d3fend_data output_dir w' = fetch_d3fend_data output_dir w)
         \<and> (let patterns = parse_capec_patterns (fetch_capec_data output_dir w');
                 c' = build_consolidated (now w') techniques mitigations patterns
                        (fetch_d3fend_data output_dir w')
             in generate_consolidated_mapping output_dir w' = Inr c'
              \<and> stride_mapping c' =
                  create_stride_mapping_with_real_data stride_capec_mappings techniques patterns
              \<and> attack_techniques_count (data_sources (metadata c')) = length techniques
              \<and> attack_mitigations_count (data_sources (metadata c')) = length mitigations
              \<and> capec_patterns_count (data_sources (metadata c')) = length patterns
              \<and> map Inr techniques =
                  concat (map (\<lambda>(domain, data).
                             map (technique_of_object domain)
                               (filter (\<lambda>obj. o_type obj = Some ''attack-pattern'')
                                  (get_list (objects data))))
                           (fetch_attack_data w'))
              \<and> map Inr mitigations =
                  concat (map (\<lambda>(domain, data).
                             map (mitigation_of_object domain)
                               (filter (\<lambda>obj. o_type obj = Some ''course-of-action'')
                                  (get_list (objects data))))
                           (fetch_attack_data w'))
              \<and> source \<notin> fst ` set (fetch_attack_data w')
              \<and> (\<forall>t \<in> set techniques. t_domain t \<noteq> source)
              \<and> (\<forall>m \<in> set mitigations. m_domain m \<noteq> source)
              \<and> (source = ''capec_stix'' \<longrightarrow>
                    patterns = [] \<and> capec_patterns_count (data_sources (metadata c')) = 0)
              \<and> (source = ''d3fend_base'' \<longrightarrow>
                    \<not> d3fend_available (data_sources (metadata c')))
              \<and> (\<forall>(other, url') \<in> set sources. \<forall>doc.
                    other \<noteq> source \<and>
                    snd (download_with_retry (net w' url') url' 3) = Inr (Some doc) \<longrightarrow>
                    (sublist ''attack'' other \<longrightarrow>
                       (other, doc) \<in> set (fetch_attack_data w')) \<and>
                    (other = ''capec_stix'' \<and> writable w' (output_dir @ ''/capec_raw.json'') \<longrightarrow>
                       fetch_capec_data output_dir w' = doc) \<and>
                    (other = ''d3fend_base'' \<and>
                     writable w' (output_dir @ ''/d3fend_raw.json'') \<longrightarrow>
                       fetch_d3fend_data output_dir w' = doc)))"
proof -
  from run_Inr [OF assms(5)] obtain ts ms where
    ts: "parse_attack_techniques (fetch_attack_data w) = Inr ts"
    and ms: "parse_attack_mitigations (fetch_attack_data w) = Inr ms"
    and final: "writable w (output_dir @ ''/consolidated_mapping.json'')"
    by blast
  from download_all_failed [OF assms(2)] obtain e where
    failed: "snd (download_with_retry (net w' url) url 3) = Inl e" ..
  note fetched = fetch_attack_data_without [OF assms(1,3) failed]
  from parse_attack_techniques_filter [OF ts] fetched obtain techniques where
    techniques: "parse_attack_techniques (fetch_attack_data w') = Inr techniques"
    by metis
  from parse_attack_mitigations_filter [OF ms] fetched obtain mitigations where
    mitigations: "parse_attack_mitigations (fetch_attack_data w') = Inr mitigations"
    by metis
  from final assms(4) have final': "writable w' (output_dir @ ''/consolidated_mapping.json'')"
    by simp
  note rest = run_with_failed_source [OF assms(1,2) techniques mitigations final']
  have capec: "fetch_capec_data output_dir w' = fetch_capec_data output_dir w"
    if "source \<noteq> ''capec_stix''"
    by (rule fetch_capec_data_same [OF assms(1) that assms(3,4)])
  have d3fend: "fetch_d3fend_data output_dir w' = fetch_d3fend_data output_dir w"
    if "source \<noteq> ''d3fend_base''"
    by (rule fetch_d3fend_data_same [OF assms(1) that assms(3,4)])
  from techniques mitigations fetched capec d3fend rest show ?thesis
    by blast
qed

text \<open>
  Claim C10. When the run returns a document, each of its three sample lists is the
  prefix of the parsed list it samples, of length \<open>min 10\<close> of the length of that list.
  The parsed lists are not changed by it: the counts of the metadata are the lengths of
  the whole lists, and the mapping is the correlation of the whole lists.
\<close>

theorem C10_samples_are_prefixes:
  assumes "generate_consolidated_mapping output_dir w = Inr c"
  shows "\<exists>techniques mitigations patterns.
           parse_attack_techniques (fetch_attack_data w) = Inr techniques
         \<and> parse_attack_mitigations (fetch_attack_data w) = Inr mitigations
         \<and> parse_capec_patterns (fetch_capec_data output_dir w) = patterns
         \<and> sample_attack_techniques (sample_data c) = take 10 techniques
         \<and> prefix (sample_attack_techniques (sample_data c)) techniques
         \<and> length (sample_attack_techniques (sample_data c)) = min 10 (length techniques)
         \<and> sample_attack_mitigations (sample_data c) = take 10 mitigations
         \<and> prefix (sample_attack_mitigations (sample_data c)) mitigations
         \<and> length (sample_attack_mitigations (sample_data c)) = min 10 (length mitigations)
         \<and> sample_capec_patterns (sample_data c) = take 10 patterns
         \<and> prefix (sample_capec_patterns (sample_data c)) patterns
         \<and> length (sample_capec_patterns (sample_data c)) = min 10 (length patterns)
         \<and> attack_techniques_count (data_sources (metadata c)) = length techniques
         \<and> attack_mitigations_count (data_sources (metadata c)) = length mitigations
         \<and> capec_patterns_count (data_sources (metadata c)) = length patterns
         \<and> stride_mapping c =
             create_stride_mapping_with_real_data stride_capec_mappings techniques patterns"
proof -
  from run_Inr [OF assms] obtain techniques mitigations where
    t: "parse_attack_techniques (fetch_attack_data w) = Inr techniques"
    and m: "parse_attack_mitigations (fetch_attack_data w) = Inr mitigations"
    and c: "c = build_consolidated (now w) techniques mitigations
                 (parse_capec_patterns (fetch_capec_data output_dir w))
                 (fetch_d3fend_data output_dir w)"
    by blast
  from t m show ?thesis
    unfolding c by (simp add: build_consolidated_fields take_is_prefix min.commute)
qed

text \<open>Evaluation of the fetch functions in the world \<open>enterprise_only\<close>.\<close>

lemma enterprise_only_fetch:
  "fetch_attack_data (enterprise_only objs) = [(''attack_enterprise'', stix_bundle objs)]"
  "fetch_capec_data output_dir (enterprise_only objs) = empty_document"
  "fetch_d3fend_data output_dir (enterprise_only objs) = empty_document"
proof -
  have three: "[0..<3] = [0, Suc 0, Suc (Suc 0)]"
    by (simp add: upt_rec)
  show "fetch_attack_data (enterprise_only objs) = [(''attack_enterprise'', stix_bundle objs)]"
    by (simp add: fetch_attack_data_def sources_def enterprise_only_def
        download_with_retry_def three sublist_Cons_right)
  show "fetch_capec_data output_dir (enterprise_only objs) = empty_document"
    by (simp add: fetch_capec_data_def sources_def enterprise_only_def
        download_with_retry_def three)
  show "fetch_d3fend_data output_dir (enterprise_only objs) = empty_document"
    by (simp add: fetch_d3fend_data_def sources_def enterprise_only_def
        download_with_retry_def three)
qed

text \<open>The pattern catalog answers in the first run and is down in the second; the
  enterprise catalog has one technique and one mitigation. The second run returns the
  document built from these two records, with no pattern. D3FEND is down in the second
  run, and its flag is false.\<close>

theorem C7_failed_source_leaves_rest_witness:
  "generate_consolidated_mapping ''cybersec_data'' capec_answers =
     Inr (build_consolidated ''2025-08-18T12:00:00''
            [new_technique '''' ''Phishing'' ''''] [user_training]
            (parse_capec_patterns (stix_bundle [capec_object])) empty_document)
   \<and> generate_consolidated_mapping ''cybersec_data'' mobile_down =
     Inr (build_consolidated ''2025-08-18T12:00:00''
            [new_technique '''' ''Phishing'' ''''] [user_training] [] empty_document)
   \<and> capec_patterns_count (data_sources (metadata
        (build_consolidated ''2025-08-18T12:00:00''
           [new_technique '''' ''Phishing'' ''''] [user_training] [] empty_document))) = 0
   \<and> attack_techniques_count (data_sources (metadata
        (build_consolidated ''2025-08-18T12:00:00''
           [new_technique '''' ''Phishing'' ''''] [user_training] [] empty_document))) = 1
   \<and> \<not> d3fend_available (data_sources (metadata
        (build_consolidated ''2025-08-18T12:00:00''
           [new_technique '''' ''Phishing'' ''''] [user_training] [] empty_document)))
   \<and> fetch_attack_data mobile_down = fetch_attack_data capec_answers"
proof -
  have patterns: "parse_capec_patterns empty_document = []"
    by (simp add: parse_capec_patterns_def empty_document_def)
  have src: "(''capec_stix'', url_of ''capec_stix'') \<in> set sources"
    and src': "(''d3fend_base'', url_of ''d3fend_base'') \<in> set sources"
    by (simp_all add: url_of_sources sources_def)
  have down: "\<forall>attempt<3. \<exists>e.
      net mobile_down (url_of ''capec_stix'') attempt = Request_failed e"
    and down': "\<forall>attempt<3. \<exists>e.
      net mobile_down (url_of ''d3fend_base'') attempt = Request_failed e"
    by (simp_all add: mobile_down_def answering_fields url_of_sources)
  have off: "\<forall>u. u \<noteq> url_of ''capec_stix'' \<longrightarrow> net mobile_down u = net capec_answers u"
    by (auto simp: mobile_down_def capec_answers_def answering_fields fun_eq_iff)
  have files: "writable mobile_down = writable capec_answers"
    by (simp add: mobile_down_def capec_answers_def answering_fields)
  have first: "generate_consolidated_mapping ''cybersec_data'' capec_answers =
     Inr (build_consolidated ''2025-08-18T12:00:00''
            [new_technique '''' ''Phishing'' ''''] [user_training]
            (parse_capec_patterns (stix_bundle [capec_object])) empty_document)"
    by (simp add: generate_consolidated_mapping_def Let_def capec_answers_def
        answering_fetch_attack_data answering_fetch_capec_data answering_fetch_d3fend_data
        two_objects_parsed answering_fields)
  have fetched: "fetch_attack_data mobile_down =
      [(''attack_enterprise'', stix_bundle two_objects)]"
    "fetch_attack_data capec_answers = [(''attack_enterprise'', stix_bundle two_objects)]"
    "fetch_capec_data ''cybersec_data'' mobile_down = empty_document"
    "fetch_d3fend_data ''cybersec_data'' mobile_down = empty_document"
    "now mobile_down = ''2025-08-18T12:00:00''"
    by (simp_all add: mobile_down_def capec_answers_def answering_fetch_attack_data
        answering_fetch_capec_data answering_fetch_d3fend_data answering_fields)
  from C7_failed_source_leaves_rest [OF src down off files first]
  have second: "generate_consolidated_mapping ''cybersec_data'' mobile_down =
     Inr (build_consolidated ''2025-08-18T12:00:00''
            [new_technique '''' ''Phishing'' ''''] [user_training] [] empty_document)
   \<and> capec_patterns_count (data_sources (metadata
        (build_consolidated ''2025-08-18T12:00:00''
           [new_technique '''' ''Phishing'' ''''] [user_training] [] empty_document))) = 0
   \<and> attack_techniques_count (data_sources (metadata
        (build_consolidated ''2025-08-18T12:00:00''
           [new_technique '''' ''Phishing'' ''''] [user_training] [] empty_document))) = 1
   \<and> fetch_attack_data mobile_down = fetch_attack_data capec_answers"
    by (auto simp: Let_def fetched two_objects_parsed patterns)
  then have again: "generate_consolidated_mapping ''cybersec_data'' mobile_down =
     Inr (build_consolidated ''2025-08-18T12:00:00''
            [new_technique '''' ''Phishing'' ''''] [user_training] [] empty_document)"
    by (rule conjunct1)
  have off': "\<forall>u. u \<noteq> url_of ''d3fend_base'' \<longrightarrow> net mobile_down u = net mobile_down u"
    by simp
  from C7_failed_source_leaves_rest [OF src' down' off' refl again]
  have "\<not> d3fend_available (data_sources (metadata
        (build_consolidated ''2025-08-18T12:00:00''
           [new_technique '''' ''Phishing'' ''''] [user_training] [] empty_document)))"
    by (auto simp: Let_def fetched two_objects_parsed patterns)
  with first second show ?thesis by blast
qed

text \<open>Twelve techniques in the enterprise catalog: the sample holds the first ten, and
  the count of the metadata is twelve.\<close>

theorem C10_samples_are_prefixes_witness:
  "generate_consolidated_mapping ''cybersec_data''
       (enterprise_only (map (new_object ''attack-pattern'') twelve_names)) =
     Inr (build_consolidated ''2025-08-18T12:00:00''
            (map (\<lambda>n. new_technique '''' n '''') twelve_names) [] [] empty_document)
   \<and> sample_attack_techniques (sample_data
        (build_consolidated ''2025-08-18T12:00:00''
           (map (\<lambda>n. new_technique '''' n '''') twelve_names) [] [] empty_document)) =
       map (\<lambda>n. new_technique '''' n '''')
         [''T01'', ''T02'', ''T03'', ''T04'', ''T05'', ''T06'', ''T07'', ''T08'', ''T09'', ''T10'']
   \<and> length (sample_attack_techniques (sample_data
        (build_consolidated ''2025-08-18T12:00:00''
           (map (\<lambda>n. new_technique '''' n '''') twelve_names) [] [] empty_document))) = 10
   \<and> attack_techniques_count (data_sources (metadata
        (build_consolidated ''2025-08-18T12:00:00''
           (map (\<lambda>n. new_technique '''' n '''') twelve_names) [] [] empty_document))) = 12"
proof -
  have techs: "parse_attack_techniques
      (fetch_attack_data (enterprise_only (map (new_object ''attack-pattern'') twelve_names))) =
      Inr (map (\<lambda>n. new_technique '''' n '''') twelve_names)"
    by (simp add: enterprise_only_fetch twelve_names_def normalizer_defs new_object_def
        stix_bundle_def new_technique_def)
  have mits: "parse_attack_mitigations
      (fetch_attack_data (enterprise_only (map (new_object ''attack-pattern'') twelve_names))) =
      Inr []"
    by (simp add: enterprise_only_fetch twelve_names_def normalizer_defs new_object_def
        stix_bundle_def)
  have run: "generate_consolidated_mapping ''cybersec_data''
       (enterprise_only (map (new_object ''attack-pattern'') twelve_names)) =
     Inr (build_consolidated ''2025-08-18T12:00:00''
            (map (\<lambda>n. new_technique '''' n '''') twelve_names) [] [] empty_document)"
    by (simp add: generate_consolidated_mapping_def Let_def techs mits
        enterprise_only_fetch(2,3) parse_capec_patterns_def empty_document_def)
      (simp add: enterprise_only_def)
  from C10_samples_are_prefixes [OF run]
  have "sample_attack_techniques (sample_data
        (build_consolidated ''2025-08-18T12:00:00''
           (map (\<lambda>n. new_technique '''' n '''') twelve_names) [] [] empty_document)) =
       take 10 (map (\<lambda>n. new_technique '''' n '''') twelve_names)
    \<and> attack_techniques_count (data_sources (metadata
        (build_consolidated ''2025-08-18T12:00:00''
           (map (\<lambda>n. new_technique '''' n '''') twelve_names) [] [] empty_document))) =
       length (map (\<lambda>n. new_technique '''' n '''') twelve_names)"
    by (auto simp: techs)
  with run show ?thesis
    by (simp add: twelve_names_def)
qed

end
